theory Spec2Isabelle
  imports Main "HOL-Library.AList" "HOL-Library.Sublist"
begin

section \<open>Python strings and \<open>os.path.join\<close>\<close>

text \<open>
  \<open>str.split(sep)\<close> scans from the left and cuts at every non-overlapping occurrence of
  \<open>sep\<close>; the result is never empty. \<open>cur\<close> is the piece read so far.
\<close>

function py_split_from :: "string \<Rightarrow> string \<Rightarrow> string \<Rightarrow> string list" where
  "py_split_from sep cur [] = [cur]"
| "py_split_from sep cur (x # xs) =
     (if sep \<noteq> [] \<and> prefix sep (x # xs)
      then cur # py_split_from sep [] (drop (length sep) (x # xs))
      else py_split_from sep (cur @ [x]) xs)"
  by pat_completeness auto
termination
  by (relation "measure (\<lambda>(sep, cur, s). length s)") auto

definition py_split :: "string \<Rightarrow> string \<Rightarrow> string list" where
  "py_split sep s = py_split_from sep [] s"

text \<open>\<open>sep.join(parts)\<close>.\<close>

fun py_join :: "string \<Rightarrow> string list \<Rightarrow> string" where
  "py_join sep [] = []"
| "py_join sep [w] = w"
| "py_join sep (w # ws) = w @ sep @ py_join sep ws"

text \<open>
  \<open>posixpath.join(a, *p)\<close>: a component that starts with a slash replaces the path, a
  path that is empty or ends with a slash takes the component as it is, and otherwise a
  slash goes between them.
\<close>

definition join_step :: "string \<Rightarrow> string \<Rightarrow> string" where
  "join_step path b =
     (if prefix ''/'' b then b
      else if path = [] then path @ b
      else if last path = CHR ''/'' then path @ b
      else path @ ''/'' @ b)"

definition op_join :: "string \<Rightarrow> string list \<Rightarrow> string" where
  "op_join a p = foldl join_step a p"

text \<open>What \<open>posixpath.join\<close> puts between a directory and a first plain component.\<close>

definition sep_after :: "string \<Rightarrow> string" where
  "sep_after d = (if d = [] then [] else if last d = CHR ''/'' then [] else ''/'')"

section \<open>Errors\<close>

datatype errno = EEXIST | ENOENT | ENOTDIR | EISDIR

datatype error =
    ArcanaError string
  | ArcanaUsageError
  | ArcanaFileFormatError
  | ArcanaWrongRepositoryError
  | OSError errno
  | JSONDecodeError
  | BadZipfile
  | IndexError
  | KeyError
  | ValueError
  | AttributeError
  | UnboundLocalError
  | RemoteError string

section \<open>The \<open>Clinical\<close> data space\<close>

text \<open>
  Modelled from the spec: the enum \<open>Clinical\<close> (arcana2.dimensions.clinical) is not
  among the sources. Its members are the eight named in
  \<open>core/data/tests/test_enum.py\<close>; \<open>dataset\<close> is the member without any layer, the
  one \<open>Clinical(0b0)\<close> gives.
\<close>

datatype clinical =
    Clinical_dataset | Clinical_member | Clinical_group | Clinical_timepoint
  | Clinical_subject | Clinical_batch | Clinical_matchedpoint | Clinical_session

definition clinical_name :: "clinical \<Rightarrow> string" where
  "clinical_name l =
     (case l of
        Clinical_dataset \<Rightarrow> ''dataset'' | Clinical_member \<Rightarrow> ''member''
      | Clinical_group \<Rightarrow> ''group'' | Clinical_timepoint \<Rightarrow> ''timepoint''
      | Clinical_subject \<Rightarrow> ''subject'' | Clinical_batch \<Rightarrow> ''batch''
      | Clinical_matchedpoint \<Rightarrow> ''matchedpoint'' | Clinical_session \<Rightarrow> ''session'')"

definition all_clinical :: "clinical list" where
  "all_clinical =
     [Clinical_dataset, Clinical_member, Clinical_group, Clinical_timepoint,
      Clinical_subject, Clinical_batch, Clinical_matchedpoint, Clinical_session]"

text \<open>\<open>Clinical[name]\<close>: the member of that name, KeyError when there is none.\<close>

definition clinical_lookup :: "string \<Rightarrow> error + clinical" where
  "clinical_lookup s =
     (case find (\<lambda>l. clinical_name l = s) all_clinical of
        None \<Rightarrow> Inl KeyError
      | Some l \<Rightarrow> Inr l)"

section \<open>Items\<close>

record data_node =
  frequency :: clinical
  ids :: "(clinical \<times> string) list"

text \<open>
  The file format of a file group. \<open>assort_files\<close> (arcana2's FileFormat, not among the
  sources) picks the primary file and the side cars out of a list of candidate names or
  paths, or raises; it is a parameter of the model.
\<close>

record data_format =
  format_name :: string
  directory :: bool
  assort_files :: "string list \<Rightarrow> error + string \<times> (string \<times> string) list"

text \<open>
  A file group as \<open>Xnat\<close> reads it. \<open>name_path\<close> is the sequence that
  \<open>'__'.join\<close> iterates over; \<open>repository_id\<close> stands for
  \<open>data_node.dataset.repository\<close>; \<open>calculate_checksums\<close> is the value of the method of
  that name and \<open>local_cache\<close>, \<open>fname\<close>, \<open>aux_file_fnames_and_paths\<close> are the
  attributes of those names (class FileGroup is not among the sources).
\<close>

record file_group =
  name :: string
  name_path :: "string list"
  node :: data_node
  fmt :: "data_format option"
  uri :: "string option"
  scan_id :: "string option"
  derived :: bool
  repository_id :: nat
  local_cache :: string
  fname :: string
  aux_file_fnames_and_paths :: "(string \<times> string) list"
  calculate_checksums :: "(string \<times> string) list"
  provenance :: "string option"

section \<open>Names of remote resources\<close>

text \<open>\<open>f'{l}__{item.data_node.ids[l]}'\<close> for each layer; a layer without an id is a KeyError.\<close>

fun layer_parts :: "(clinical \<times> string) list \<Rightarrow> clinical list \<Rightarrow> error + string list" where
  "layer_parts node_ids [] = Inr []"
| "layer_parts node_ids (l # ls) =
     (case map_of node_ids l of
        None \<Rightarrow> Inl KeyError
      | Some i \<Rightarrow>
          (case layer_parts node_ids ls of
             Inl e \<Rightarrow> Inl e
           | Inr ps \<Rightarrow> Inr ((clinical_name l @ ''__'' @ i) # ps)))"

text \<open>
  \<open>Xnat.escape_name\<close>. \<open>hierarchy\<close> is the property of that name of a \<open>Clinical\<close>
  member (the enum is not among the sources): the layers of a frequency.
\<close>

definition escape_name :: "(clinical \<Rightarrow> clinical list) \<Rightarrow> file_group \<Rightarrow> error + string" where
  "escape_name hierarchy item =
     (let name = py_join ''__'' (name_path item) in
      if frequency (node item) \<notin> {Clinical_subject, Clinical_session}
      then
        (case layer_parts (ids (node item)) (hierarchy (frequency (node item))) of
           Inl e \<Rightarrow> Inl e
         | Inr ps \<Rightarrow> Inr (''___'' @ py_join ''___'' ps @ ''___''))
      else Inr name)"

text \<open>
  The loop of \<open>Xnat.unescape_name\<close> over \<open>id_parts\<close>. The unpacking
  \<open>layer_freq_str, id = part.split('__')\<close> is a ValueError unless the split has two
  pieces. The statement \<open>freq_value != layer_freq\<close> is a comparison whose value is
  dropped, so the loop leaves \<open>freq_value\<close> alone and only fills \<open>ids\<close>.
\<close>

fun unescape_ids ::
  "string list \<Rightarrow> (clinical \<times> string) list \<Rightarrow> error + (clinical \<times> string) list" where
  "unescape_ids [] acc = Inr acc"
| "unescape_ids (part # parts) acc =
     (case py_split ''__'' part of
        [layer_freq_str, i] \<Rightarrow>
          (case clinical_lookup layer_freq_str of
             Inl e \<Rightarrow> Inl e
           | Inr layer_freq \<Rightarrow> unescape_ids parts (AList.update layer_freq i acc))
      | _ \<Rightarrow> Inl ValueError)"

text \<open>
  \<open>Xnat.unescape_name\<close>: \<open>xname.split('___')[1:-1]\<close>, the loop, \<open>Clinical(freq_value)\<close>
  with \<open>freq_value\<close> still \<open>0b0\<close>, and \<open>id_parts[-1]\<close>, an IndexError on an empty list.
\<close>

definition unescape_name :: "string \<Rightarrow> error + string \<times> clinical \<times> (clinical \<times> string) list" where
  "unescape_name xname =
     (let id_parts = butlast (tl (py_split ''___'' xname)) in
      case unescape_ids id_parts [] of
        Inl e \<Rightarrow> Inl e
      | Inr node_ids \<Rightarrow>
          (let frequency = Clinical_dataset in
           if id_parts = [] then Inl IndexError
           else Inr (py_join ''/'' (py_split ''__'' (last id_parts)), frequency, node_ids)))"

section \<open>The local file system and the XNAT server\<close>

type_synonym path = string

text \<open>
  What a file holds, as the libraries that read it see it: text that \<open>json.load\<close>
  parses to a dictionary of strings, a well-formed zip archive with its members
  (relative path and data), or any other bytes.
\<close>

datatype content =
    Bytes string
  | JsonDict "(string \<times> string) list"
  | ZipOf "(string \<times> string) list"

datatype fs_node = Dir | File content

text \<open>The effects a run has on the disk and on the server, in the order they happen.\<close>

datatype event =
    Ev_makedirs path
  | Ev_mkdir path
  | Ev_rmtree path
  | Ev_move path path
  | Ev_open_w path
  | Ev_write path content
  | Ev_extract path path
  | Ev_download string
  | Ev_get_json string
  | Ev_delete_resource string
  | Ev_create_resource string string
  | Ev_upload string string

record xresource =
  label :: string
  res_format :: string
  res_files :: "string list"

record xscan =
  scan_ident :: string
  scan_resources :: "(string \<times> string) list"

text \<open>
  The world of one call: the local disk as a table from paths to nodes, the modification
  times \<open>dir_modtime\<close> reads, the answers of the server to the two requests the cache
  makes (the zip stream and the JSON file listing of a resource URI), the XNAT node
  \<open>get_xnode\<close> returns for the item's data node (its \<open>standard_uri\<close>, its resources
  and its scans), and the log of effects.
\<close>

record world =
  nodes :: "(path \<times> fs_node) list"
  mtime :: "path \<Rightarrow> nat"
  zip_stream :: "string \<Rightarrow> error + content"
  files_json :: "string \<Rightarrow> error + (string \<times> string) list"
  node_uri :: string
  resources :: "(string \<times> xresource) list"
  scans :: "(string \<times> xscan) list"
  log :: "event list"

text \<open>A computation either raises or returns, and leaves a world behind in both cases.\<close>

type_synonym 'a io = "world \<Rightarrow> (error + 'a) \<times> world"

definition return_io :: "'a \<Rightarrow> 'a io" where
  "return_io a = (\<lambda>w. (Inr a, w))"

definition raise_io :: "error \<Rightarrow> 'a io" where
  "raise_io e = (\<lambda>w. (Inl e, w))"

definition bind_io :: "'a io \<Rightarrow> ('a \<Rightarrow> 'b io) \<Rightarrow> 'b io" where
  "bind_io m f = (\<lambda>w. case m w of (Inl e, w1) \<Rightarrow> (Inl e, w1) | (Inr a, w1) \<Rightarrow> f a w1)"

definition catch_io :: "'a io \<Rightarrow> (error \<Rightarrow> 'a io) \<Rightarrow> 'a io" where
  "catch_io m h = (\<lambda>w. case m w of (Inl e, w1) \<Rightarrow> h e w1 | (Inr a, w1) \<Rightarrow> (Inr a, w1))"

definition lift_io :: "error + 'a \<Rightarrow> 'a io" where
  "lift_io r = (\<lambda>w. (r, w))"

definition emit :: "event \<Rightarrow> world \<Rightarrow> world" where
  "emit e w = w\<lparr>log := log w @ [e]\<rparr>"

text \<open>The server of \<open>w'\<close> is the server of \<open>w\<close>: nothing remote has changed.\<close>

definition same_server :: "world \<Rightarrow> world \<Rightarrow> bool" where
  "same_server w w' =
     (zip_stream w' = zip_stream w \<and> files_json w' = files_json w \<and> node_uri w' = node_uri w \<and>
      resources w' = resources w \<and> scans w' = scans w)"

text \<open>
  The URLs a log fetched an archive from, and the paths something was moved (renamed)
  onto.
\<close>

definition downloads :: "event list \<Rightarrow> string list" where
  "downloads evs = concat (map (\<lambda>e. case e of Ev_download u \<Rightarrow> [u] | _ \<Rightarrow> []) evs)"

definition moved_onto :: "event list \<Rightarrow> path list" where
  "moved_onto evs = concat (map (\<lambda>e. case e of Ev_move a b \<Rightarrow> [b] | _ \<Rightarrow> []) evs)"

text \<open>
  A file written the atomic way: put in place by a rename, and never opened for writing
  under its own path.
\<close>

definition written_by_rename :: "path \<Rightarrow> event list \<Rightarrow> bool" where
  "written_by_rename p evs = (if p \<in> set (moved_onto evs) then Ev_open_w p \<notin> set evs else False)"

text \<open>
  Whatever the outcome, the computation leaves the server as it was; and whatever the
  outcome, it only appends to the log, and what it appends satisfies \<open>P\<close>.
\<close>

definition keeps_server :: "'a io \<Rightarrow> bool" where
  "keeps_server m = (\<forall>w r w'. m w = (r, w') \<longrightarrow> same_server w w')"

definition logs_only :: "(event list \<Rightarrow> bool) \<Rightarrow> 'a io \<Rightarrow> bool" where
  "logs_only P m = (\<forall>w r w'. m w = (r, w') \<longrightarrow> (\<exists>evs. log w' = log w @ evs \<and> P evs))"

subsection \<open>Paths\<close>

text \<open>
  The table is keyed by path names as the program spells them, and a call looks up the
  very string it is given. So the table stands for a disk only as far as every file is
  spelled in one way: the operating system takes a name with a trailing slash, or with an
  empty, a \<open>.\<close> or a \<open>..\<close> component, for the file of the plain name, and the table
  takes it for another key. \<open>plain_path\<close> says that a name has no such component
  after its first. \<open>cache_path\<close> can give a name that is not plain: for a URI that
  ends in a slash it gives a cache path that ends in one, which on a disk is the
  directory above its own marker.
\<close>

definition plain_path :: "path \<Rightarrow> bool" where
  "plain_path p = list_all (\<lambda>s. s \<notin> {[], ''.'', ''..''}) (tl (py_split ''/'' p))"

text \<open>\<open>os.path.exists\<close>, on the name as it is spelled.\<close>

definition op_exists :: "path \<Rightarrow> world \<Rightarrow> bool" where
  "op_exists p w = (map_of (nodes w) p \<noteq> None)"

text \<open>\<open>q\<close> is \<open>p\<close> or lies below it.\<close>

definition under :: "path \<Rightarrow> path \<Rightarrow> bool" where
  "under p q = (if q = p then True else prefix (p @ ''/'') q)"

definition basename :: "path \<Rightarrow> string" where
  "basename p = rev (takeWhile (\<lambda>c. c \<noteq> CHR ''/'') (rev p))"

text \<open>The proper ancestors of a path, outermost first: what is before each of its slashes.\<close>

definition ancestors :: "path \<Rightarrow> path list" where
  "ancestors p = map (\<lambda>i. take i p) (filter (\<lambda>i. p ! i = CHR ''/'') [1..<length p])"

definition add_dirs :: "path list \<Rightarrow> (path \<times> fs_node) list \<Rightarrow> (path \<times> fs_node) list" where
  "add_dirs ps ns = fold (\<lambda>q acc. if map_of acc q = None then acc @ [(q, Dir)] else acc) ps ns"

subsection \<open>The calls of \<open>os\<close>, \<open>shutil\<close>, \<open>glob\<close>, \<open>zipfile\<close> and \<open>json\<close>\<close>

text \<open>
  Each call fails for the reasons the code tells apart (the path is there already, or
  is not there) and otherwise does its work on the table.
\<close>

text \<open>A file stands where one of the directories above \<open>p\<close> should be.\<close>

definition file_above :: "path \<Rightarrow> world \<Rightarrow> bool" where
  "file_above p w =
     list_ex (\<lambda>a. case map_of (nodes w) a of None \<Rightarrow> False | Some Dir \<Rightarrow> False | Some (File c) \<Rightarrow> True)
       (ancestors p)"

text \<open>
  \<open>os.makedirs(p)\<close>: FileExistsError (EEXIST) when \<open>p\<close> is there, NotADirectoryError
  (ENOTDIR, the error line 212 raises again) when a file is above it; otherwise \<open>p\<close> is
  made, with the directories above it that are missing.
\<close>

definition os_makedirs :: "path \<Rightarrow> unit io" where
  "os_makedirs p w =
     (if op_exists p w then (Inl (OSError EEXIST), w)
      else if file_above p w then (Inl (OSError ENOTDIR), w)
      else (Inr (), emit (Ev_makedirs p) (w\<lparr>nodes := add_dirs (ancestors p @ [p]) (nodes w)\<rparr>)))"

text \<open>\<open>os.makedirs(p, exist_ok=True)\<close>.\<close>

definition os_makedirs_exist_ok :: "path \<Rightarrow> unit io" where
  "os_makedirs_exist_ok p w =
     (if map_of (nodes w) p = Some Dir then (Inr (), w)
      else os_makedirs p w)"

definition os_mkdir :: "path \<Rightarrow> unit io" where
  "os_mkdir p w =
     (if op_exists p w then (Inl (OSError EEXIST), w)
      else (Inr (), emit (Ev_mkdir p) (w\<lparr>nodes := nodes w @ [(p, Dir)]\<rparr>)))"

definition shutil_rmtree :: "path \<Rightarrow> unit io" where
  "shutil_rmtree p w =
     (case map_of (nodes w) p of
        None \<Rightarrow> (Inl (OSError ENOENT), w)
      | Some (File c) \<Rightarrow> (Inl (OSError ENOTDIR), w)
      | Some Dir \<Rightarrow>
          (Inr (), emit (Ev_rmtree p) (w\<lparr>nodes := filter (\<lambda>(q, n). \<not> under p q) (nodes w)\<rparr>)))"

text \<open>
  \<open>shutil.move(src, dst)\<close>: into \<open>dst\<close> when that is a directory, onto \<open>dst\<close> otherwise;
  the whole subtree goes along.
\<close>

definition shutil_move :: "path \<Rightarrow> path \<Rightarrow> unit io" where
  "shutil_move src dst w =
     (if op_exists src w then
        (let real_dst = (if map_of (nodes w) dst = Some Dir then dst @ ''/'' @ basename src else dst) in
         if op_exists real_dst w then (Inl (OSError EEXIST), w)
         else
           (Inr (),
            emit (Ev_move src real_dst)
              (w\<lparr>nodes :=
                   map (\<lambda>(q, n). (if under src q then real_dst @ drop (length src) q else q, n))
                     (nodes w)\<rparr>)))
      else (Inl (OSError ENOENT), w))"

text \<open>\<open>open(p, 'r')\<close> and reading the whole file.\<close>

definition open_r :: "path \<Rightarrow> content io" where
  "open_r p w =
     (case map_of (nodes w) p of
        None \<Rightarrow> (Inl (OSError ENOENT), w)
      | Some Dir \<Rightarrow> (Inl (OSError EISDIR), w)
      | Some (File c) \<Rightarrow> (Inr c, w))"

text \<open>\<open>open(p, 'w')\<close>: the file is there and empty from this moment on.\<close>

definition open_w :: "path \<Rightarrow> unit io" where
  "open_w p w =
     (if map_of (nodes w) p = Some Dir then (Inl (OSError EISDIR), w)
      else (Inr (), emit (Ev_open_w p) (w\<lparr>nodes := AList.update p (File (Bytes [])) (nodes w)\<rparr>)))"

text \<open>Writing into the open file and closing it.\<close>

definition write_file :: "path \<Rightarrow> content \<Rightarrow> unit io" where
  "write_file p c w =
     (Inr (), emit (Ev_write p c) (w\<lparr>nodes := AList.update p (File c) (nodes w)\<rparr>))"

definition json_dump :: "(string \<times> string) list \<Rightarrow> path \<Rightarrow> unit io" where
  "json_dump d p = write_file p (JsonDict d)"

definition is_zip :: "content \<Rightarrow> bool" where
  "is_zip c = (case c of ZipOf m \<Rightarrow> True | Bytes b \<Rightarrow> False | JsonDict d \<Rightarrow> False)"

definition json_load :: "content \<Rightarrow> error + (string \<times> string) list" where
  "json_load c = (case c of JsonDict d \<Rightarrow> Inr d | Bytes b \<Rightarrow> Inl JSONDecodeError | ZipOf m \<Rightarrow> Inl JSONDecodeError)"

definition shutil_copyfile :: "path \<Rightarrow> path \<Rightarrow> unit io" where
  "shutil_copyfile src dst = bind_io (open_r src) (\<lambda>c. bind_io (open_w dst) (\<lambda>_. write_file dst c))"

text \<open>\<open>shutil.copytree(src, dst)\<close> makes \<open>dst\<close> itself and refuses one that is there.\<close>

definition shutil_copytree :: "path \<Rightarrow> path \<Rightarrow> unit io" where
  "shutil_copytree src dst w =
     (if op_exists dst w then (Inl (OSError EEXIST), w)
      else if op_exists src w then
        (Inr (),
         emit (Ev_makedirs dst)
           (w\<lparr>nodes :=
                nodes w @
                map (\<lambda>(q, n). (dst @ drop (length src) q, n))
                  (filter (\<lambda>(q, n). under src q) (nodes w))\<rparr>))
      else (Inl (OSError ENOENT), w))"

definition os_listdir :: "path \<Rightarrow> string list io" where
  "os_listdir p w =
     (if op_exists p w then
        (Inr (map (\<lambda>(q, n). drop (Suc (length p)) q)
               (filter (\<lambda>(q, n). prefix (p @ ''/'') q \<and> CHR ''/'' \<notin> set (drop (Suc (length p)) q))
                  (nodes w))), w)
      else (Inl (OSError ENOENT), w))"

text \<open>
  \<open>ZipFile(zip_path).extractall(dest)\<close>: BadZipfile unless the file is a zip archive;
  each member is written below \<open>dest\<close>, with the directories on its way.
\<close>

definition extract_member :: "path \<Rightarrow> string \<times> string \<Rightarrow> (path \<times> fs_node) list \<Rightarrow> (path \<times> fs_node) list" where
  "extract_member dest m ns =
     AList.update (dest @ ''/'' @ fst m) (File (Bytes (snd m)))
       (add_dirs (ancestors (dest @ ''/'' @ fst m)) ns)"

definition zip_extractall :: "path \<Rightarrow> path \<Rightarrow> unit io" where
  "zip_extractall zip_path dest =
     bind_io (open_r zip_path) (\<lambda>c.
       case c of
         ZipOf members \<Rightarrow>
           (\<lambda>w. (Inr (), emit (Ev_extract zip_path dest)
                    (w\<lparr>nodes := fold (extract_member dest) members (nodes w)\<rparr>)))
       | Bytes b \<Rightarrow> raise_io BadZipfile
       | JsonDict d \<Rightarrow> raise_io BadZipfile)"

text \<open>
  \<open>glob(d + '/**/files', recursive=True)\<close>: every path below \<open>d\<close> whose last component
  is \<open>files\<close>, in the order of the table.
\<close>

definition glob_files :: "path \<Rightarrow> world \<Rightarrow> path list" where
  "glob_files d w =
     map fst (filter (\<lambda>(q, n). prefix (d @ ''/'') q \<and> suffix ''/files'' q) (nodes w))"

text \<open>
  Modelled from the spec: \<open>dir_modtime\<close> (arcana2.core.utils) is not among the sources;
  the spec has the protocol record the marker directory's modification time.
\<close>

definition dir_modtime :: "path \<Rightarrow> world \<Rightarrow> nat" where
  "dir_modtime p w = mtime w p"

subsection \<open>The requests to the server\<close>

text \<open>
  \<open>xnat_session.download_stream(url, f, format='zip')\<close> into the file opened at \<open>p\<close>.
\<close>

definition download_stream :: "string \<Rightarrow> path \<Rightarrow> unit io" where
  "download_stream url p w =
     (case zip_stream w url of
        Inl e \<Rightarrow> (Inl e, emit (Ev_download url) w)
      | Inr c \<Rightarrow> write_file p c (emit (Ev_download url) w))"

text \<open>The rows \<open>(r['Name'], r['digest'])\<close> of \<open>login.get_json(url)['ResultSet']['Result']\<close>.\<close>

definition get_json :: "string \<Rightarrow> (string \<times> string) list io" where
  "get_json url w = (files_json w url, emit (Ev_get_json url) w)"

definition xresource_delete :: "string \<Rightarrow> unit io" where
  "xresource_delete n w =
     (Inr (), emit (Ev_delete_resource n) (w\<lparr>resources := AList.delete n (resources w)\<rparr>))"

text \<open>\<open>login.classes.ResourceCatalog(parent=xnode, label=n, format=f)\<close>.\<close>

definition create_resource :: "string \<Rightarrow> string \<Rightarrow> unit io" where
  "create_resource n f w =
     (Inr (),
      emit (Ev_create_resource n f)
        (w\<lparr>resources :=
             AList.update n \<lparr>label = n, res_format = f, res_files = []\<rparr> (resources w)\<rparr>))"

text \<open>
  \<open>xresource.upload(local, remote)\<close> on the resource labelled \<open>n\<close>. The model keeps the
  remote name only; what the upload reads from the local disk is not followed.
\<close>

definition xresource_upload :: "string \<Rightarrow> string \<Rightarrow> unit io" where
  "xresource_upload n remote w =
     (Inr (),
      emit (Ev_upload n remote)
        (w\<lparr>resources :=
             AList.map_entry n (\<lambda>r. r\<lparr>res_files := res_files r @ [remote]\<rparr>) (resources w)\<rparr>))"

section \<open>The \<open>Xnat\<close> repository\<close>

text \<open>
  The attributes of \<open>Xnat\<close> the cache reads: those the class declares (lines 75 to 80,
  the delay under the name \<open>race_condition_delay\<close>), \<open>repo_id\<close> the identity
  \<open>_check_repository\<close> compares, and \<open>PROV_RESOURCE\<close> the class constant of that name
  (the class body does not define it, so it is a parameter).
\<close>

record xnat =
  server :: string
  cache_dir :: string
  check_md5 :: bool
  race_condition_delay :: nat
  repo_id :: nat
  PROV_RESOURCE :: string

text \<open>
  \<open>self._race_cond_delay\<close>, which line 210 reads. The class declares
  \<open>race_condition_delay\<close> (line 80) and no line of the sources defines or assigns
  \<open>_race_cond_delay\<close>, so reading it raises AttributeError.
\<close>

definition race_cond_delay :: "xnat \<Rightarrow> error + nat" where
  "race_cond_delay repo = Inl AttributeError"

definition MD5_SUFFIX :: string where
  "MD5_SUFFIX = ''.md5.json''"

text \<open>\<open>Xnat.cache_path\<close>, on the URI of the item (or the URI itself when a string is passed).\<close>

definition cache_path :: "xnat \<Rightarrow> string option \<Rightarrow> error + path" where
  "cache_path repo item_uri =
     (case item_uri of
        None \<Rightarrow> Inl (ArcanaError ''URI of item needs to be set before cache path'')
      | Some u \<Rightarrow> Inr (op_join (cache_dir repo) (drop 3 (py_split ''/'' u))))"

text \<open>\<open>Xnat._check_repository\<close>.\<close>

definition check_repository :: "xnat \<Rightarrow> file_group \<Rightarrow> unit io" where
  "check_repository repo item =
     (if repository_id item = repo_id repo then return_io ()
      else raise_io ArcanaWrongRepositoryError)"

text \<open>
  \<open>Xnat.get_checksums\<close>, after the request: the dictionary of the rows (a later row of
  the same name overwrites an earlier one), and for a format that is not a directory
  the key of the primary file replaced by \<open>'.'\<close> through
  \<open>checksums['.'] = checksums.pop(primary)\<close>.
\<close>

definition manifest_of_rows :: "file_group \<Rightarrow> (string \<times> string) list \<Rightarrow> error + (string \<times> string) list" where
  "manifest_of_rows fg rows =
     (let checksums = fold (\<lambda>r. AList.update (fst r) (snd r)) rows [] in
      case fmt fg of
        None \<Rightarrow> Inl AttributeError
      | Some f \<Rightarrow>
          if directory f then Inr checksums
          else
            (case assort_files f (map fst checksums) of
               Inl e \<Rightarrow> Inl e
             | Inr found \<Rightarrow>
                 (case map_of checksums (fst found) of
                    None \<Rightarrow> Inl KeyError
                  | Some d \<Rightarrow> Inr (AList.update ''.'' d (AList.delete (fst found) checksums)))))"

text \<open>\<open>Xnat.get_checksums\<close>.\<close>

definition get_checksums :: "file_group \<Rightarrow> (string \<times> string) list io" where
  "get_checksums fg =
     (case uri fg of
        None \<Rightarrow> raise_io ArcanaUsageError
      | Some u \<Rightarrow>
          bind_io (get_json (u @ ''/files'')) (\<lambda>rows. lift_io (manifest_of_rows fg rows)))"

text \<open>
  Modelled from the spec: the property \<open>file_group.checksums\<close> (class FileGroup is not
  among the sources) is the remote manifest, which the repository's \<open>get_checksums\<close>
  fetches.
\<close>

definition fg_checksums :: "file_group \<Rightarrow> (string \<times> string) list io" where
  "fg_checksums fg = get_checksums fg"

text \<open>The manifest the server gives for a file group: the value of \<open>get_checksums\<close>.\<close>

definition remote_manifest :: "file_group \<Rightarrow> world \<Rightarrow> error + (string \<times> string) list" where
  "remote_manifest fg w =
     (case uri fg of
        None \<Rightarrow> Inl ArcanaUsageError
      | Some u \<Rightarrow>
          (case files_json w (u @ ''/files'') of
             Inl e \<Rightarrow> Inl e
           | Inr rows \<Rightarrow> manifest_of_rows fg rows))"

text \<open>Equality of two Python dictionaries given as tables.\<close>

definition dict_eq :: "(string \<times> string) list \<Rightarrow> (string \<times> string) list \<Rightarrow> bool" where
  "dict_eq a b = list_all (\<lambda>k. map_of a k = map_of b k) (map fst a @ map fst b)"

text \<open>\<open>glob(...)[0]\<close>.\<close>

definition first_match :: "path list \<Rightarrow> path io" where
  "first_match ps = (case ps of [] \<Rightarrow> raise_io IndexError | q # qs \<Rightarrow> return_io q)"

text \<open>\<open>Xnat.download_file_group\<close>.\<close>

definition download_file_group :: "path \<Rightarrow> string \<Rightarrow> file_group \<Rightarrow> path \<Rightarrow> unit io" where
  "download_file_group tmp_dir xresource_uri fg cpath =
     (let zip_path = op_join tmp_dir [''download.zip''] in
      bind_io (open_w zip_path) (\<lambda>_.
      bind_io (download_stream (xresource_uri @ ''/files'') zip_path) (\<lambda>_.
      bind_io (get_checksums fg) (\<lambda>checksums.
      let expanded_dir = op_join tmp_dir [''expanded''] in
      bind_io
        (catch_io (zip_extractall zip_path expanded_dir)
           (\<lambda>e. if e = BadZipfile then raise_io (ArcanaError ''Could not unzip file'')
                else raise_io e)) (\<lambda>_.
      bind_io (\<lambda>w. first_match (glob_files expanded_dir w) w) (\<lambda>data_path.
      bind_io
        (catch_io (shutil_rmtree cpath)
           (\<lambda>e. if e = OSError ENOENT then return_io () else raise_io e)) (\<lambda>_.
      bind_io (shutil_move data_path cpath) (\<lambda>_.
      bind_io (open_w (cpath @ MD5_SUFFIX)) (\<lambda>_.
      json_dump checksums (cpath @ MD5_SUFFIX))))))))))"

text \<open>Lines 626 to 628 of \<open>Xnat._delayed_download\<close>: the restart.\<close>

definition restart_download :: "path \<Rightarrow> string \<Rightarrow> file_group \<Rightarrow> path \<Rightarrow> unit io" where
  "restart_download tmp_dir xresource_uri fg cpath =
     bind_io (shutil_rmtree tmp_dir) (\<lambda>_.
     bind_io (os_mkdir tmp_dir) (\<lambda>_.
     download_file_group tmp_dir xresource_uri fg cpath))"

text \<open>
  \<open>Xnat._delayed_download\<close>, as a method of its own. The list is what the other
  processes do to the world during each \<open>time.sleep(delay)\<close> of the call, one entry per
  sleep; once it is used up nobody else acts, so a sleep changes nothing and the
  modification time read after it is the one read before it.
\<close>

fun delayed_download ::
  "(world \<Rightarrow> world) list \<Rightarrow> path \<Rightarrow> string \<Rightarrow> file_group \<Rightarrow> path \<Rightarrow> nat \<Rightarrow> unit io" where
  "delayed_download [] tmp_dir xresource_uri fg cpath delay w =
     (if op_exists cpath w then (Inr (), w)
      else restart_download tmp_dir xresource_uri fg cpath w)"
| "delayed_download (others # later) tmp_dir xresource_uri fg cpath delay w =
     (let initial_mod_time = dir_modtime tmp_dir w;
          w1 = others w
      in if op_exists cpath w1 then (Inr (), w1)
         else if initial_mod_time = dir_modtime tmp_dir w1
         then restart_download tmp_dir xresource_uri fg cpath w1
         else delayed_download later tmp_dir xresource_uri fg cpath delay w1)"

text \<open>
  \<open>Xnat.get_file_group_paths\<close>, lines 152 to 169: the URI of a file group that has
  none yet, from the resource of the node (a derivative) or of the scan.
\<close>

definition assign_uri :: "(clinical \<Rightarrow> clinical list) \<Rightarrow> data_format \<Rightarrow> file_group \<Rightarrow> file_group io" where
  "assign_uri hierarchy f fg w =
     (if uri fg \<in> {None, Some []} then
        (let base_uri = node_uri w in
         if derived fg then
           (case escape_name hierarchy fg of
              Inl e \<Rightarrow> (Inl e, w)
            | Inr n \<Rightarrow>
                (case map_of (resources w) n of
                   None \<Rightarrow> (Inl KeyError, w)
                 | Some xr \<Rightarrow> (Inr (fg\<lparr>uri := Some (base_uri @ ''/resources/'' @ label xr)\<rparr>), w)))
         else
           (case map_of (scans w) (name fg) of
              None \<Rightarrow> (Inl KeyError, w)
            | Some xs \<Rightarrow>
                (case map_of (scan_resources xs) (format_name f) of
                   None \<Rightarrow> (Inl KeyError, w)
                 | Some l \<Rightarrow>
                     (Inr (fg\<lparr>scan_id := Some (scan_ident xs),
                              uri := Some (base_uri @ ''/scans/'' @ scan_ident xs @ ''/resources/'' @ l)\<rparr>),
                      w))))
      else (Inr fg, w))"

text \<open>
  Lines 171 to 183: whether the cache has to be filled. Only an IOError (OSError) of the
  \<open>try\<close> block is caught; the comparison with \<open>file_group.checksums\<close> is its \<open>else\<close>.
\<close>

definition need_to_download :: "xnat \<Rightarrow> file_group \<Rightarrow> path \<Rightarrow> bool io" where
  "need_to_download repo fg cpath w =
     (if op_exists cpath w then
        (if check_md5 repo then
           (case bind_io (open_r (cpath @ MD5_SUFFIX)) (\<lambda>c. lift_io (json_load c)) w of
              (Inl (OSError n), w1) \<Rightarrow> (Inr True, w1)
            | (Inl e, w1) \<Rightarrow> (Inl e, w1)
            | (Inr cached_checksums, w1) \<Rightarrow>
                bind_io (fg_checksums fg)
                  (\<lambda>remote. return_io (if dict_eq cached_checksums remote then False else True)) w1)
         else (Inr False, w))
      else (Inr True, w))"

text \<open>
  Lines 184 to 216: the marker directory, and the download or the wait. When the marker
  is there already, the arguments of the call of \<open>_delayed_download\<close> are evaluated
  first, \<open>self._race_cond_delay\<close> among them, and the call is made only with their
  values.
\<close>

definition fill_cache :: "xnat \<Rightarrow> (world \<Rightarrow> world) list \<Rightarrow> file_group \<Rightarrow> string \<Rightarrow> path \<Rightarrow> unit io" where
  "fill_cache repo env fg xresource_uri cpath w =
     (let tmp_dir = cpath @ ''.download'' in
      case os_makedirs tmp_dir w of
        (Inl (OSError n), w1) \<Rightarrow>
          (if n = EEXIST
           then bind_io (lift_io (race_cond_delay repo))
                  (\<lambda>delay. delayed_download env tmp_dir xresource_uri fg cpath delay) w1
           else (Inl (OSError n), w1))
      | (Inl e, w1) \<Rightarrow> (Inl e, w1)
      | (Inr u, w1) \<Rightarrow>
          bind_io (download_file_group tmp_dir xresource_uri fg cpath)
            (\<lambda>_. shutil_rmtree tmp_dir) w1)"

text \<open>Lines 217 to 223: the paths handed back.\<close>

definition cached_paths :: "data_format \<Rightarrow> path \<Rightarrow> (path \<times> (string \<times> string) list option) io" where
  "cached_paths f cpath =
     (if directory f then return_io (cpath, None)
      else
        bind_io (os_listdir cpath) (\<lambda>fs.
          case assort_files f (map (\<lambda>x. op_join cpath [x]) fs) of
            Inl e \<Rightarrow> raise_io e
          | Inr found \<Rightarrow> return_io (fst found, Some (snd found))))"

text \<open>
  \<open>Xnat.get_file_group_paths\<close>. The result carries the file group as the call leaves
  it (its \<open>uri\<close> assigned), next to the primary path and the side cars.
\<close>

definition get_file_group_paths ::
  "xnat \<Rightarrow> (clinical \<Rightarrow> clinical list) \<Rightarrow> (world \<Rightarrow> world) list \<Rightarrow> file_group \<Rightarrow>
   (file_group \<times> path \<times> (string \<times> string) list option) io" where
  "get_file_group_paths repo hierarchy env fg0 =
     (case fmt fg0 of
        None \<Rightarrow> raise_io ArcanaUsageError
      | Some f \<Rightarrow>
          bind_io (check_repository repo fg0) (\<lambda>_.
          bind_io (assign_uri hierarchy f fg0) (\<lambda>fg.
          bind_io (lift_io (cache_path repo (uri fg))) (\<lambda>cpath.
          bind_io (need_to_download repo fg cpath) (\<lambda>need.
          bind_io
            (if need then fill_cache repo env fg (the (uri fg)) cpath else return_io ()) (\<lambda>_.
          bind_io (cached_paths f cpath) (\<lambda>found.
          return_io (fg, found))))))))"

subsection \<open>Upload\<close>

fun each_io :: "('a \<Rightarrow> unit io) \<Rightarrow> 'a list \<Rightarrow> unit io" where
  "each_io f [] = return_io ()"
| "each_io f (x # xs) = bind_io (f x) (\<lambda>_. each_io f xs)"

text \<open>
  \<open>Xnat.put_provenance\<close> for a file group (\<open>item.is_field\<close> is false, so the file name
  gets no prefix).
\<close>

definition put_provenance :: "xnat \<Rightarrow> (clinical \<Rightarrow> clinical list) \<Rightarrow> file_group \<Rightarrow> string \<Rightarrow> unit io" where
  "put_provenance repo hierarchy item prov w =
     (let u = node_uri w @ ''/resources/'' @ PROV_RESOURCE repo in
      bind_io (lift_io (cache_path repo (Some u))) (\<lambda>cdir.
      bind_io (os_makedirs_exist_ok cdir) (\<lambda>_.
      bind_io (lift_io (escape_name hierarchy item)) (\<lambda>n.
      let json_name = n @ ''.json''; cpath = op_join cdir [json_name] in
      bind_io (open_w cpath) (\<lambda>_.
      bind_io (write_file cpath (Bytes prov)) (\<lambda>_.
      bind_io
        (\<lambda>w1. case map_of (resources w1) (PROV_RESOURCE repo) of
                None \<Rightarrow> create_resource (PROV_RESOURCE repo) ''PROVENANCE'' w1
              | Some xr \<Rightarrow> (Inr (), w1)) (\<lambda>_.
      xresource_upload (PROV_RESOURCE repo) json_name)))))) w)"

text \<open>
  Lines 270 to 274 of \<open>Xnat.put_file_group\<close>: the local variable \<open>name\<close> is bound only
  when the file group has no URI yet.
\<close>

definition name_and_uri ::
  "(clinical \<Rightarrow> clinical list) \<Rightarrow> file_group \<Rightarrow> (string option \<times> file_group) io" where
  "name_and_uri hierarchy fg w =
     (if uri fg \<in> {None, Some []} then
        (case escape_name hierarchy fg of
           Inl e \<Rightarrow> (Inl e, w)
         | Inr n \<Rightarrow> (Inr (Some n, fg\<lparr>uri := Some (node_uri w @ ''/resources/'' @ n)\<rparr>), w))
      else (Inr (None, fg), w))"

text \<open>Lines 276 to 291: the copy into the cache and its manifest.\<close>

definition copy_to_cache :: "data_format \<Rightarrow> file_group \<Rightarrow> path \<Rightarrow> unit io" where
  "copy_to_cache f fg cpath =
     bind_io (\<lambda>w. if op_exists cpath w then shutil_rmtree cpath w else (Inr (), w)) (\<lambda>_.
     bind_io (os_makedirs cpath) (\<lambda>_.
     bind_io
       (if directory f then shutil_copytree (local_cache fg) cpath
        else
          bind_io (shutil_copyfile (local_cache fg) (op_join cpath [fname fg])) (\<lambda>_.
          each_io (\<lambda>sc. shutil_copyfile (snd sc) (op_join cpath [fst sc]))
            (aux_file_fnames_and_paths fg))) (\<lambda>_.
     bind_io (open_w (cpath @ MD5_SUFFIX)) (\<lambda>_.
     json_dump (calculate_checksums fg) (cpath @ MD5_SUFFIX)))))"

text \<open>
  Lines 294 to 317: delete the resource of that name if the node has one, create the new
  one, upload the files (for a directory, every file below \<open>local_cache\<close> under its
  relative path).
\<close>

definition replace_resource :: "data_format \<Rightarrow> file_group \<Rightarrow> string \<Rightarrow> unit io" where
  "replace_resource f fg n =
     bind_io
       (\<lambda>w. case map_of (resources w) n of
               None \<Rightarrow> (Inr (), w)
             | Some xr \<Rightarrow> xresource_delete n w) (\<lambda>_.
     bind_io (create_resource n (format_name f)) (\<lambda>_.
     (if directory f then
        (\<lambda>w. each_io (\<lambda>q. xresource_upload n (drop (Suc (length (local_cache fg))) q))
               (map fst (filter (\<lambda>(q, x). prefix (local_cache fg @ ''/'') q \<and> x \<noteq> Dir) (nodes w))) w)
      else
        bind_io (xresource_upload n (fname fg)) (\<lambda>_.
        each_io (\<lambda>sc. xresource_upload n (fst sc)) (aux_file_fnames_and_paths fg)))))"

text \<open>\<open>Xnat.put_file_group\<close>.\<close>

definition put_file_group :: "xnat \<Rightarrow> (clinical \<Rightarrow> clinical list) \<Rightarrow> file_group \<Rightarrow> file_group io" where
  "put_file_group repo hierarchy fg0 =
     (case fmt fg0 of
        None \<Rightarrow> raise_io ArcanaFileFormatError
      | Some f \<Rightarrow>
          bind_io (check_repository repo fg0) (\<lambda>_.
          bind_io (name_and_uri hierarchy fg0) (\<lambda>named.
          let fg = snd named in
          bind_io (lift_io (cache_path repo (uri fg))) (\<lambda>cpath.
          bind_io (copy_to_cache f fg cpath) (\<lambda>_.
          bind_io
            (case provenance fg of
               None \<Rightarrow> return_io ()
             | Some prov \<Rightarrow> put_provenance repo hierarchy fg prov) (\<lambda>_.
          case fst named of
            None \<Rightarrow> raise_io UnboundLocalError
          | Some n \<Rightarrow> bind_io (replace_resource f fg n) (\<lambda>_. return_io fg)))))))"

section \<open>A small repository, for the examples\<close>

definition repo0 :: xnat where
  "repo0 = \<lparr>server = ''https://xnat'', cache_dir = ''/cache'', check_md5 = True,
            race_condition_delay = 30, repo_id = 0, PROV_RESOURCE = ''__provenance__''\<rparr>"

text \<open>A format whose primary file ends in \<open>.txt\<close>; every other file is a side car.\<close>

definition fmt0 :: data_format where
  "fmt0 = \<lparr>format_name = ''text'', directory = False,
           assort_files =
             (\<lambda>cs. case filter (\<lambda>c. suffix ''.txt'' c) cs of
                      [] \<Rightarrow> Inl ArcanaFileFormatError
                    | p # ps \<Rightarrow> Inr (p, map (\<lambda>c. (basename c, c)) (filter (\<lambda>c. \<not> suffix ''.txt'' c) cs)))\<rparr>"

definition fg0 :: file_group where
  "fg0 = \<lparr>name = ''a'', name_path = [''a''],
          node = \<lparr>frequency = Clinical_session,
                  ids = [(Clinical_subject, ''S''), (Clinical_session, ''T'')]\<rparr>,
          fmt = Some fmt0, uri = Some ''/data/archive/projects/P/resources/a'',
          scan_id = None, derived = True, repository_id = 0,
          local_cache = ''/work/a.txt'', fname = ''a.txt'', aux_file_fnames_and_paths = [],
          calculate_checksums = [(''.'', ''abc'')], provenance = None\<rparr>"

text \<open>The same item before it has a URI, as \<open>put_file_group\<close> takes it.\<close>

definition fg_new :: file_group where
  "fg_new = fg0\<lparr>uri := None\<rparr>"

definition hier0 :: "clinical \<Rightarrow> clinical list" where
  "hier0 l = [l]"

text \<open>
  A server that answers with a good archive of one file and its listing; the disk is
  empty.
\<close>

definition w0 :: world where
  "w0 = \<lparr>nodes = [], mtime = (\<lambda>p. 0),
         zip_stream = (\<lambda>u. Inr (ZipOf [(''a/files/a.txt'', ''hello'')])),
         files_json = (\<lambda>u. Inr [(''a.txt'', ''abc'')]),
         node_uri = ''/data/archive/projects/P'', resources = [], scans = [], log = []\<rparr>"

definition cp0 :: path where
  "cp0 = ''/cache/projects/P/resources/a''"

text \<open>The item is cached, and its manifest file holds bytes that are not JSON.\<close>

definition w_corrupt :: world where
  "w_corrupt =
     w0\<lparr>nodes := [(cp0, Dir), (cp0 @ ''/a.txt'', File (Bytes ''old'')),
                   (cp0 @ ''.md5.json'', File (Bytes ''{''))]\<rparr>"

text \<open>A marker directory and a cache path are there, a manifest is not.\<close>

definition w_half :: world where
  "w_half =
     w0\<lparr>nodes := [(cp0 @ ''.download'', Dir), (cp0, Dir),
                   (cp0 @ ''/a.txt'', File (Bytes ''part''))]\<rparr>"

text \<open>The server answers with bytes that are not a zip archive.\<close>

definition w_badzip :: world where
  "w_badzip = w0\<lparr>zip_stream := (\<lambda>u. Inr (Bytes ''junk''))\<rparr>"

text \<open>A marker directory was left behind and nobody touches it; nothing is cached.\<close>

definition w_stale :: world where
  "w_stale = w0\<lparr>nodes := [(cp0 @ ''.download'', Dir)]\<rparr>"

text \<open>
  The local file of the item is there, and the node has a resource under the item's
  escaped name already.
\<close>

definition w_put :: world where
  "w_put =
     w0\<lparr>nodes := [(''/work/a.txt'', File (Bytes ''new''))],
        resources := [(''a'', \<lparr>label = ''a'', res_format = ''text'', res_files = [''old.txt'']\<rparr>)]\<rparr>"

section \<open>Splitting and joining\<close>

lemma py_split_from_nonempty: "py_split_from sep cur s \<noteq> []"
  by (induction sep cur s rule: py_split_from.induct) auto

lemma py_join_Cons: "ws \<noteq> [] \<Longrightarrow> py_join sep (w # ws) = w @ sep @ py_join sep ws"
  by (cases ws) auto

lemma py_join_split_from: "py_join sep (py_split_from sep cur s) = cur @ s"
proof (induction sep cur s rule: py_split_from.induct)
  case (1 sep cur)
  then show ?case by simp
next
  case (2 sep cur x xs)
  show ?case
  proof (cases "sep \<noteq> [] \<and> prefix sep (x # xs)")
    case True
    then have eq: "x # xs = sep @ drop (length sep) (x # xs)"
      by (metis append_eq_conv_conj prefix_def)
    from True 2
    have "py_join sep (py_split_from sep [] (drop (length sep) (x # xs))) = drop (length sep) (x # xs)"
      by simp
    with True eq show ?thesis
      by (simp add: py_join_Cons py_split_from_nonempty del: drop.simps)
  next
    case False
    with 2 show ?thesis by auto
  qed
qed

lemma py_join_split: "py_join sep (py_split sep s) = s"
  by (simp add: py_split_def py_join_split_from)

lemma py_split_from_free:
  "c \<notin> set v \<Longrightarrow> py_split_from [c] cur (v @ s) = py_split_from [c] (cur @ v) s"
  by (induction v arbitrary: cur) auto

lemma py_split_from_join:
  "ws \<noteq> [] \<Longrightarrow> \<forall>v \<in> set ws. c \<notin> set v \<Longrightarrow>
   py_split_from [c] cur (py_join [c] ws) = (cur @ hd ws) # tl ws"
proof (induction ws arbitrary: cur)
  case Nil
  then show ?case by simp
next
  case (Cons v ws)
  show ?case
  proof (cases ws)
    case Nil
    with Cons.prems py_split_from_free [of c v cur "[]"] show ?thesis by simp
  next
    case (Cons v' ws')
    with Cons.prems Cons.IH [of "[]"] have ih: "py_split_from [c] [] (py_join [c] ws) = ws"
      by simp
    from Cons.prems have "py_split_from [c] cur (v @ [c] @ py_join [c] ws) =
        py_split_from [c] (cur @ v) ([c] @ py_join [c] ws)"
      using py_split_from_free [of c v cur] by simp
    with ih Cons show ?thesis by simp
  qed
qed

lemma py_join_inj:
  assumes "ws \<noteq> []" "vs \<noteq> []" "\<forall>v \<in> set ws. c \<notin> set v" "\<forall>v \<in> set vs. c \<notin> set v"
    and "py_join [c] ws = py_join [c] vs"
  shows "ws = vs"
proof -
  have a: "py_split_from [c] [] (py_join [c] ws) = ws"
    using assms(1,3) py_split_from_join [of ws c "[]"] by simp
  have b: "py_split_from [c] [] (py_join [c] vs) = vs"
    using assms(2,4) py_split_from_join [of vs c "[]"] by simp
  from arg_cong [OF assms(5), of "py_split_from [c] []"] show ?thesis
    unfolding a b .
qed

lemma py_split_from_slash_free:
  "c \<notin> set cur \<Longrightarrow> \<forall>v \<in> set (py_split_from [c] cur s). c \<notin> set v"
  by (induction "[c]" cur s rule: py_split_from.induct) auto

lemma py_split_slash_free: "v \<in> set (py_split [c] s) \<Longrightarrow> c \<notin> set v"
  using py_split_from_slash_free [of c "[]" s] by (simp add: py_split_def)

lemma foldl_join_step:
  "\<forall>v \<in> set ws. v \<noteq> [] \<and> CHR ''/'' \<notin> set v \<Longrightarrow> p \<noteq> [] \<Longrightarrow> last p \<noteq> CHR ''/'' \<Longrightarrow>
   foldl join_step p ws = p @ concat (map (\<lambda>v. ''/'' @ v) ws)"
proof (induction ws arbitrary: p)
  case Nil
  then show ?case by simp
next
  case (Cons v ws)
  from Cons.prems have v: "v \<noteq> []" "CHR ''/'' \<notin> set v" by auto
  then have np: "\<not> prefix ''/'' v" by (cases v) auto
  from v Cons.prems have step: "join_step p v = p @ ''/'' @ v"
    by (simp add: join_step_def np)
  from v have "last (p @ ''/'' @ v) \<noteq> CHR ''/''"
    by (metis append_is_Nil_conv last_appendR last_in_set)
  with Cons.IH [of "p @ ''/'' @ v"] Cons.prems v step show ?case by simp
qed

lemma py_join_concat: "py_join s (v # ws) = v @ concat (map (\<lambda>x. s @ x) ws)"
  by (induction ws arbitrary: v) auto

lemma op_join_good:
  assumes "ws \<noteq> []" "\<forall>v \<in> set ws. v \<noteq> [] \<and> CHR ''/'' \<notin> set v"
  shows "op_join d ws = d @ sep_after d @ py_join ''/'' ws"
proof -
  from assms obtain v vs where ws: "ws = v # vs" by (cases ws) auto
  with assms have v: "v \<noteq> []" "CHR ''/'' \<notin> set v" by auto
  then have np: "\<not> prefix ''/'' v" by (cases v) auto
  have step: "join_step d v = d @ sep_after d @ v"
    by (simp add: join_step_def sep_after_def np)
  from v have ne: "d @ sep_after d @ v \<noteq> []" by simp
  from v have l: "last (d @ sep_after d @ v) \<noteq> CHR ''/''"
    by (metis append_is_Nil_conv last_appendR last_in_set)
  from assms ws have "\<forall>x \<in> set vs. x \<noteq> [] \<and> CHR ''/'' \<notin> set x" by simp
  from foldl_join_step [OF this ne l] step ws show ?thesis
    by (simp add: op_join_def py_join_concat)
qed

lemma op_join_inj:
  assumes a: "\<forall>v \<in> set ws. v \<noteq> [] \<and> CHR ''/'' \<notin> set v"
    and b: "\<forall>v \<in> set vs. v \<noteq> [] \<and> CHR ''/'' \<notin> set v"
    and eq: "op_join d ws = op_join d vs"
  shows "ws = vs"
proof -
  have ne: "py_join ''/'' xs \<noteq> []"
    if "xs \<noteq> []" "\<forall>v \<in> set xs. v \<noteq> [] \<and> CHR ''/'' \<notin> set v" for xs
    using that by (cases xs) (auto simp: py_join_concat)
  show ?thesis
  proof (cases "ws = []")
    case True
    show ?thesis
    proof (cases "vs = []")
      case True
      with \<open>ws = []\<close> show ?thesis by simp
    next
      case False
      with True eq op_join_good [OF False b, of d] ne [OF False b] show ?thesis
        by (simp add: op_join_def)
    qed
  next
    case False
    show ?thesis
    proof (cases "vs = []")
      case True
      with False eq op_join_good [OF False a, of d] ne [OF False a] show ?thesis
        by (simp add: op_join_def)
    next
      case vs: False
      from eq op_join_good [OF False a, of d] op_join_good [OF vs b, of d]
      have "py_join ''/'' ws = py_join ''/'' vs" by simp
      with py_join_inj [of ws vs "CHR ''/''"] False vs a b show ?thesis by auto
    qed
  qed
qed

section \<open>The cache path of a URI\<close>

text \<open>
  C7, as the claim states it, fails: \<open>cache_path\<close> drops the first three segments of the
  URI, so two URIs that differ only there get one cache path.
\<close>

theorem cache_path_collision:
  "''/data/archive/projects/P'' \<noteq> ''/REST/archive/projects/P'' \<and>
   cache_path repo0 (Some ''/data/archive/projects/P'') =
   cache_path repo0 (Some ''/REST/archive/projects/P'')"
  by (simp add: cache_path_def py_split_def op_join_def join_step_def repo0_def)

text \<open>
  C7, amended: \<open>cache_path\<close> is a function of the cache directory and the URI alone (it
  takes no world and returns none), and two different URIs that agree on their first
  three segments and have no empty segment after them get different cache paths.
\<close>

theorem cache_path_injective_on:
  assumes "take 3 (py_split ''/'' u1) = take 3 (py_split ''/'' u2)"
    and "[] \<notin> set (drop 3 (py_split ''/'' u1))"
    and "[] \<notin> set (drop 3 (py_split ''/'' u2))"
    and "u1 \<noteq> u2"
  shows "cache_path repo (Some u1) \<noteq> cache_path repo (Some u2)"
proof
  assume same: "cache_path repo (Some u1) = cache_path repo (Some u2)"
  let ?a = "drop 3 (py_split ''/'' u1)" and ?b = "drop 3 (py_split ''/'' u2)"
  have a: "\<forall>v \<in> set ?a. v \<noteq> [] \<and> CHR ''/'' \<notin> set v"
    using assms(2) py_split_slash_free [of _ "CHR ''/''" u1] by (metis in_set_dropD)
  have b: "\<forall>v \<in> set ?b. v \<noteq> [] \<and> CHR ''/'' \<notin> set v"
    using assms(3) py_split_slash_free [of _ "CHR ''/''" u2] by (metis in_set_dropD)
  from same have "op_join (cache_dir repo) ?a = op_join (cache_dir repo) ?b"
    by (simp add: cache_path_def)
  from op_join_inj [OF a b this] have "?a = ?b" .
  with assms(1) have "py_split ''/'' u1 = py_split ''/'' u2"
    by (metis append_take_drop_id)
  then have "u1 = u2" by (metis py_join_split)
  with assms(4) show False by simp
qed

theorem cache_path_injective_on_witness:
  "take 3 (py_split ''/'' ''/data/archive/projects/P/resources/a'') =
     take 3 (py_split ''/'' ''/data/archive/projects/P/resources/b'') \<and>
   [] \<notin> set (drop 3 (py_split ''/'' ''/data/archive/projects/P/resources/a'')) \<and>
   [] \<notin> set (drop 3 (py_split ''/'' ''/data/archive/projects/P/resources/b'')) \<and>
   ''/data/archive/projects/P/resources/a'' \<noteq> ''/data/archive/projects/P/resources/b'' \<and>
   cache_path repo0 (Some ''/data/archive/projects/P/resources/a'') \<noteq>
   cache_path repo0 (Some ''/data/archive/projects/P/resources/b'')"
proof -
  have h1: "take 3 (py_split ''/'' ''/data/archive/projects/P/resources/a'') =
     take 3 (py_split ''/'' ''/data/archive/projects/P/resources/b'')"
    by (simp add: py_split_def)
  have h2: "[] \<notin> set (drop 3 (py_split ''/'' ''/data/archive/projects/P/resources/a''))"
    by (simp add: py_split_def)
  have h3: "[] \<notin> set (drop 3 (py_split ''/'' ''/data/archive/projects/P/resources/b''))"
    by (simp add: py_split_def)
  have h4: "''/data/archive/projects/P/resources/a'' \<noteq> ''/data/archive/projects/P/resources/b''"
    by simp
  from cache_path_injective_on [OF h1 h2 h3 h4, of repo0] h1 h2 h3 h4 show ?thesis
    by blast
qed

section \<open>Escaped names\<close>

text \<open>
  C10 at a session item named \<open>a\<close>: \<open>escape_name\<close> gives \<open>a\<close>, and \<open>unescape_name\<close>
  of that string raises IndexError (the split at \<open>___\<close> has one piece, so \<open>id_parts\<close> is
  empty and \<open>id_parts[-1]\<close> fails) instead of giving the name path, the frequency and
  the ids back.
\<close>

theorem unescape_name_escape_name_session:
  "escape_name hier0 fg0 = Inr ''a'' \<and> unescape_name ''a'' = Inl IndexError"
  by (simp add: escape_name_def fg0_def unescape_name_def py_split_def)

section \<open>The remote manifest\<close>

lemma fold_update_map_of:
  "map_of (fold (\<lambda>r. AList.update (fst r) (snd r)) rows acc) k =
     (case map_of (rev rows) k of Some v \<Rightarrow> Some v | None \<Rightarrow> map_of acc k)"
proof (induction rows arbitrary: acc)
  case Nil
  then show ?case by simp
next
  case (Cons r rows)
  then show ?case
    by (cases r) (auto simp: update_conv' map_add_def split: option.splits)
qed

text \<open>
  C9: for a file group whose format is not a directory, when the server lists the files
  and \<open>assort_files\<close> names one of them as the primary file, \<open>get_checksums\<close> returns a
  manifest that has the primary file's digest under \<open>'.'\<close>, has no entry under the
  primary file's own name, and has every other file's digest under that file's name
  (\<open>map_of (rev rows)\<close> is the digest the listing gives a name, a later row winning).
\<close>

theorem get_checksums_primary_key:
  assumes "uri fg = Some u" and "fmt fg = Some f" and "\<not> directory f"
    and "files_json w (u @ ''/files'') = Inr rows"
    and "assort_files f (map fst (fold (\<lambda>r. AList.update (fst r) (snd r)) rows [])) =
           Inr (primary, side_cars)"
    and "primary \<in> fst ` set rows"
  shows "\<exists>m w'. get_checksums fg w = (Inr m, w') \<and>
           map_of m ''.'' = map_of (rev rows) primary \<and>
           map_of m ''.'' \<noteq> None \<and>
           (\<forall>k. k \<noteq> ''.'' \<and> k \<noteq> primary \<longrightarrow> map_of m k = map_of (rev rows) k) \<and>
           (primary \<noteq> ''.'' \<longrightarrow> map_of m primary = None)"
proof -
  let ?c = "fold (\<lambda>r. AList.update (fst r) (snd r)) rows []"
  have look: "map_of ?c k = map_of (rev rows) k" for k
    by (simp add: fold_update_map_of split: option.splits)
  from assms(6) have "primary \<in> fst ` set (rev rows)" by simp
  then obtain d where d: "map_of (rev rows) primary = Some d"
    by (metis domD dom_map_of_conv_image_fst)
  have run: "get_checksums fg w =
      (Inr (AList.update ''.'' d (AList.delete primary ?c)), emit (Ev_get_json (u @ ''/files'')) w)"
    using assms(1-5) d
    by (simp add: get_checksums_def manifest_of_rows_def bind_io_def get_json_def lift_io_def look)
  show ?thesis
    unfolding run using d
    by (auto simp: update_conv' delete_conv' look)
qed

theorem get_checksums_primary_key_witness:
  "uri fg0 = Some ''/data/archive/projects/P/resources/a'' \<and> fmt fg0 = Some fmt0 \<and>
   \<not> directory fmt0 \<and>
   files_json w0 (''/data/archive/projects/P/resources/a'' @ ''/files'') = Inr [(''a.txt'', ''abc'')] \<and>
   ''a.txt'' \<in> fst ` set [(''a.txt'', ''abc'')] \<and>
   (\<exists>m w'. get_checksums fg0 w0 = (Inr m, w') \<and> map_of m ''.'' = Some ''abc'' \<and>
            map_of m ''a.txt'' = None)"
proof -
  have h1: "uri fg0 = Some ''/data/archive/projects/P/resources/a''" by (simp add: fg0_def)
  have h2: "fmt fg0 = Some fmt0" by (simp add: fg0_def)
  have h3: "\<not> directory fmt0" by (simp add: fmt0_def)
  have h4: "files_json w0 (''/data/archive/projects/P/resources/a'' @ ''/files'') =
      Inr [(''a.txt'', ''abc'')]" by (simp add: w0_def)
  have h5: "assort_files fmt0 (map fst (fold (\<lambda>r. AList.update (fst r) (snd r)) [(''a.txt'', ''abc'')] [])) =
      Inr (''a.txt'', [])" by (simp add: fmt0_def suffix_def)
  have h6: "''a.txt'' \<in> fst ` set [(''a.txt'', ''abc'')]" by simp
  from get_checksums_primary_key [OF h1 h2 h3 h4 h5 h6]
  obtain m w' where "get_checksums fg0 w0 = (Inr m, w')"
    and "map_of m ''.'' = map_of (rev [(''a.txt'', ''abc'')]) ''a.txt''"
    and "''a.txt'' \<noteq> ''.'' \<longrightarrow> map_of m ''a.txt'' = None"
    by blast
  then have "\<exists>m w'. get_checksums fg0 w0 = (Inr m, w') \<and> map_of m ''.'' = Some ''abc'' \<and>
            map_of m ''a.txt'' = None"
    by auto
  with h1 h2 h3 h4 h6 show ?thesis by blast
qed

section \<open>Running computations\<close>

lemma bind_io_Inr:
  "bind_io m f w = (Inr b, w') \<longleftrightarrow> (\<exists>a w1. m w = (Inr a, w1) \<and> f a w1 = (Inr b, w'))"
  by (auto simp: bind_io_def split: prod.splits sum.splits)

lemma bind_io_run: "m w = (Inr a, w1) \<Longrightarrow> bind_io m f w = f a w1"
  by (simp add: bind_io_def)

lemma bind_io_err: "m w = (Inl e, w1) \<Longrightarrow> bind_io m f w = (Inl e, w1)"
  by (simp add: bind_io_def)

lemma same_server_refl: "same_server w w"
  by (simp add: same_server_def)

lemma same_server_trans: "same_server a b \<Longrightarrow> same_server b c \<Longrightarrow> same_server a c"
  by (simp add: same_server_def)

lemma same_server_emit: "same_server w (emit e w)"
  by (simp add: same_server_def emit_def)

section \<open>Paths\<close>

lemma ancestors_prefix: "q \<in> set (ancestors p) \<Longrightarrow> prefix (q @ ''/'') p"
proof -
  assume "q \<in> set (ancestors p)"
  then obtain i where i: "i < length p" "p ! i = CHR ''/''" "q = take i p"
    by (auto simp: ancestors_def)
  from id_take_nth_drop [OF i(1)] i(2) have "p = (take i p @ ''/'') @ drop (Suc i) p"
    by simp
  with i(3) show ?thesis
    by (metis prefixI)
qed

lemma not_under_sibling: "CHR ''/'' \<notin> set s \<Longrightarrow> s \<noteq> [] \<Longrightarrow> t \<noteq> s \<Longrightarrow> \<not> prefix s t \<Longrightarrow> \<not> under (c @ s) (c @ t)"
  by (auto simp: under_def prefix_def append_eq_append_conv2)

lemma marker_not_above [simp]:
  "\<not> under (c @ ''.download'') c"
  "\<not> under (c @ ''.download'') (c @ ''.md5.json'')"
  "\<not> under c (c @ ''.download'')"
  "\<not> under c (c @ ''.md5.json'')"
  by (auto simp: under_def prefix_def)

lemma marker_no_ancestor [simp]:
  "c \<notin> set (ancestors (c @ ''.download''))"
  "c @ ''.md5.json'' \<notin> set (ancestors (c @ ''.download''))"
  using ancestors_prefix [of c "c @ ''.download''"]
    ancestors_prefix [of "c @ ''.md5.json''" "c @ ''.download''"]
  by (auto simp: prefix_def)

lemma map_of_add_dirs:
  "map_of (add_dirs ps ns) k =
     (case map_of ns k of Some v \<Rightarrow> Some v | None \<Rightarrow> if k \<in> set ps then Some Dir else None)"
  unfolding add_dirs_def
proof (induction ps arbitrary: ns)
  case Nil
  then show ?case by (simp split: option.splits)
next
  case (Cons p ps)
  then show ?case
    by (auto simp: map_add_def split: option.splits)
qed

lemma map_of_filter_keys:
  "map_of (filter (\<lambda>(q, n). P q) ns) k = (if P k then map_of ns k else None)"
  by (induction ns) auto

lemma op_join_marker [simp]:
  "op_join (c @ ''.download'') [''download.zip''] = c @ ''.download/download.zip''"
  "op_join (c @ ''.download'') [''expanded''] = c @ ''.download/expanded''"
  by (simp_all add: op_join_def join_step_def)


section \<open>What a call leaves alone\<close>

lemma get_checksums_run:
  "uri fg = Some u \<Longrightarrow>
   get_checksums fg w =
     ((case files_json w (u @ ''/files'') of Inl e \<Rightarrow> Inl e | Inr rows \<Rightarrow> manifest_of_rows fg rows),
      emit (Ev_get_json (u @ ''/files'')) w)"
  by (simp add: get_checksums_def bind_io_def get_json_def lift_io_def split: sum.splits)

lemma nodes_emit [simp]: "nodes (emit e w) = nodes w"
  and zip_stream_emit [simp]: "zip_stream (emit e w) = zip_stream w"
  and files_json_emit [simp]: "files_json (emit e w) = files_json w"
  and mtime_emit [simp]: "mtime (emit e w) = mtime w"
  and resources_emit [simp]: "resources (emit e w) = resources w"
  and log_emit [simp]: "log (emit e w) = log w @ [e]"
  by (simp_all add: emit_def)

lemma op_exists_emit [simp]: "op_exists p (emit e w) = op_exists p w"
  by (simp add: op_exists_def)

section \<open>A manifest that does not parse\<close>

lemma assign_uri_set:
  "uri fg = Some u \<Longrightarrow> u \<noteq> [] \<Longrightarrow> assign_uri hierarchy f fg w = (Inr fg, w)"
  by (simp add: assign_uri_def)


lemma fg0_simps [simp]:
  "fmt fg0 = Some fmt0" "repository_id fg0 = 0" "uri fg0 = Some ''/data/archive/projects/P/resources/a''"
  by (simp_all add: fg0_def)

lemma cache_path_fg0 [simp]:
  "cache_path repo0 (Some ''/data/archive/projects/P/resources/a'') = Inr cp0"
  by (simp add: cache_path_def py_split_def op_join_def join_step_def repo0_def cp0_def)

lemma repo0_simps [simp]:
  "check_md5 repo0" "repo_id repo0 = 0" "cache_dir repo0 = ''/cache''" "race_condition_delay repo0 = 30"
  by (simp_all add: repo0_def)



section \<open>Adopting what is at the cache path\<close>

lemma os_makedirs_exists: "op_exists p w \<Longrightarrow> os_makedirs p w = (Inl (OSError EEXIST), w)"
  by (simp add: os_makedirs_def)

lemma fill_cache_marker_raises:
  "op_exists (cp @ ''.download'') w \<Longrightarrow> fill_cache repo env fg u cp w = (Inl AttributeError, w)"
  by (simp add: fill_cache_def os_makedirs_exists race_cond_delay_def bind_io_def lift_io_def)

text \<open>
  C6, amended: \<open>_delayed_download\<close> returns without downloading, and leaves the world
  as the sleep left it, as soon as the cache path exists after the sleep; the manifest
  is not looked at. When the cache path does not exist after the sleep, it waits again
  if the modification time of the marker has changed during the sleep, and removes the
  marker and restarts the download if it has not (also when nobody else acts any more).
\<close>

theorem delayed_download_adopts_existing_path:
  "(op_exists cp (others w) \<longrightarrow>
      delayed_download (others # later) tmp u fg cp d w = (Inr (), others w)) \<and>
   (\<not> op_exists cp (others w) \<and> dir_modtime tmp (others w) \<noteq> dir_modtime tmp w \<longrightarrow>
      delayed_download (others # later) tmp u fg cp d w =
        delayed_download later tmp u fg cp d (others w)) \<and>
   (\<not> op_exists cp (others w) \<and> dir_modtime tmp (others w) = dir_modtime tmp w \<longrightarrow>
      delayed_download (others # later) tmp u fg cp d w =
        restart_download tmp u fg cp (others w)) \<and>
   (op_exists cp w \<longrightarrow> delayed_download [] tmp u fg cp d w = (Inr (), w)) \<and>
   (\<not> op_exists cp w \<longrightarrow>
      delayed_download [] tmp u fg cp d w = restart_download tmp u fg cp w)"
  by (auto simp: Let_def)

text \<open>
  C6, as the claim states it, fails: with a marker and a cache path but no manifest file
  \<open>_delayed_download\<close> returns, and the world (its log included) is unchanged.
\<close>

theorem adopts_without_manifest:
  "map_of (nodes w_half) (cp0 @ MD5_SUFFIX) = None \<and>
   delayed_download [] (cp0 @ ''.download'') ''/data/archive/projects/P/resources/a'' fg0 cp0 30
     w_half = (Inr (), w_half)"
  by (simp add: op_exists_def w_half_def w0_def cp0_def MD5_SUFFIX_def)

theorem delayed_download_adopts_existing_path_witness:
  "op_exists cp0 ((\<lambda>w. w) w_half) \<and>
   delayed_download [\<lambda>w. w] (cp0 @ ''.download'') ''/data/archive/projects/P/resources/a'' fg0 cp0 30
     w_half = (Inr (), w_half)"
proof -
  have e: "op_exists cp0 ((\<lambda>w. w) w_half)"
    by (simp add: op_exists_def w_half_def w0_def cp0_def)
  from delayed_download_adopts_existing_path
    [of cp0 "\<lambda>w. w" w_half "[]" "cp0 @ ''.download''" "''/data/archive/projects/P/resources/a''" fg0 30] e
  have "delayed_download [\<lambda>w. w] (cp0 @ ''.download'') ''/data/archive/projects/P/resources/a'' fg0 cp0 30
     w_half = (Inr (), w_half)"
    by blast
  with e show ?thesis by simp
qed

section \<open>A transfer that fails\<close>

lemma os_makedirs_new:
  "\<not> op_exists p w \<Longrightarrow> \<not> file_above p w \<Longrightarrow>
   os_makedirs p w =
     (Inr (), emit (Ev_makedirs p) (w\<lparr>nodes := add_dirs (ancestors p @ [p]) (nodes w)\<rparr>))"
  by (simp add: os_makedirs_def)

lemma download_file_group_bad_zip:
  assumes z: "zip_stream w (u @ ''/files'') = Inr c" and nz: "\<not> is_zip c" and uf: "uri fg = Some u'"
  shows "\<exists>e w'. download_file_group (cp @ ''.download'') u fg cp w = (Inl e, w') \<and>
           (\<forall>k. k \<noteq> cp @ ''.download/download.zip'' \<longrightarrow> map_of (nodes w') k = map_of (nodes w) k)"
proof (cases "map_of (nodes w) (cp @ ''.download/download.zip'') = Some Dir")
  case True
  then show ?thesis
    by (simp add: download_file_group_def bind_io_def open_w_def Let_def)
next
  case False
  let ?zip = "cp @ ''.download/download.zip''"
  let ?w2 = "emit (Ev_open_w ?zip) (w\<lparr>nodes := AList.update ?zip (File (Bytes [])) (nodes w)\<rparr>)"
  let ?w3 = "emit (Ev_write ?zip c)
      ((emit (Ev_download (u @ ''/files'')) ?w2)\<lparr>nodes := AList.update ?zip (File c) (nodes ?w2)\<rparr>)"
  let ?w4 = "emit (Ev_get_json (u' @ ''/files'')) ?w3"
  have s1: "open_w ?zip w = (Inr (), ?w2)"
    using False by (simp add: open_w_def)
  have s2: "download_stream (u @ ''/files'') ?zip ?w2 = (Inr (), ?w3)"
    using z by (simp add: download_stream_def write_file_def emit_def)
  obtain r where s3: "get_checksums fg ?w3 = (r, ?w4)"
    using get_checksums_run [OF uf] by simp
  have rd: "open_r ?zip ?w4 = (Inr c, ?w4)"
    by (simp add: open_r_def update_conv')
  have s4: "zip_extractall ?zip (cp @ ''.download/expanded'') ?w4 = (Inl BadZipfile, ?w4)"
    using nz rd by (cases c) (simp_all add: zip_extractall_def bind_io_def raise_io_def is_zip_def)
  have frame: "\<forall>k. k \<noteq> ?zip \<longrightarrow> map_of (nodes ?w4) k = map_of (nodes w) k"
    by (simp add: update_conv')
  show ?thesis
  proof (cases r)
    case (Inl e)
    with s1 s2 s3 have "download_file_group (cp @ ''.download'') u fg cp w = (Inl e, ?w4)"
      by (simp add: download_file_group_def bind_io_def Let_def)
    with frame show ?thesis by blast
  next
    case (Inr m)
    with s1 s2 s3 s4
    have "download_file_group (cp @ ''.download'') u fg cp w =
        (Inl (ArcanaError ''Could not unzip file''), ?w4)"
      by (simp add: download_file_group_def bind_io_def catch_io_def raise_io_def Let_def)
    with frame show ?thesis by blast
  qed
qed




section \<open>What a call appends to the log\<close>

lemma logs_onlyI:
  "(\<And>w r w'. m w = (r, w') \<Longrightarrow> \<exists>evs. log w' = log w @ evs \<and> P evs) \<Longrightarrow> logs_only P m"
  by (simp add: logs_only_def)

lemma logs_onlyD:
  "logs_only P m \<Longrightarrow> m w = (r, w') \<Longrightarrow> \<exists>evs. log w' = log w @ evs \<and> P evs"
  by (simp add: logs_only_def)

lemma logs_only_bind:
  assumes nil: "P []" and app: "\<And>a b. P a \<Longrightarrow> P b \<Longrightarrow> P (a @ b)"
    and m: "logs_only P m" and f: "\<And>a. logs_only P (f a)"
  shows "logs_only P (bind_io m f)"
proof (rule logs_onlyI)
  fix w r w'
  assume run: "bind_io m f w = (r, w')"
  obtain r1 w1 where m1: "m w = (r1, w1)" by (cases "m w")
  from logs_onlyD [OF m m1] obtain e1 where e1: "log w1 = log w @ e1" "P e1" by blast
  show "\<exists>evs. log w' = log w @ evs \<and> P evs"
  proof (cases r1)
    case (Inl e)
    with run m1 have "w' = w1" by (simp add: bind_io_def)
    with e1 show ?thesis by blast
  next
    case (Inr a)
    with run m1 have "f a w1 = (r, w')" by (simp add: bind_io_def)
    from logs_onlyD [OF f this] obtain e2 where "log w' = log w1 @ e2" "P e2" by blast
    with e1 app [of e1 e2] show ?thesis by auto
  qed
qed

lemma logs_only_catch:
  assumes nil: "P []" and app: "\<And>a b. P a \<Longrightarrow> P b \<Longrightarrow> P (a @ b)"
    and m: "logs_only P m" and h: "\<And>e. logs_only P (h e)"
  shows "logs_only P (catch_io m h)"
proof (rule logs_onlyI)
  fix w r w'
  assume run: "catch_io m h w = (r, w')"
  obtain r1 w1 where m1: "m w = (r1, w1)" by (cases "m w")
  from logs_onlyD [OF m m1] obtain e1 where e1: "log w1 = log w @ e1" "P e1" by blast
  show "\<exists>evs. log w' = log w @ evs \<and> P evs"
  proof (cases r1)
    case (Inr a)
    with run m1 have "w' = w1" by (simp add: catch_io_def)
    with e1 show ?thesis by blast
  next
    case (Inl e)
    with run m1 have "h e w1 = (r, w')" by (simp add: catch_io_def)
    from logs_onlyD [OF h this] obtain e2 where "log w' = log w1 @ e2" "P e2" by blast
    with e1 app [of e1 e2] show ?thesis by auto
  qed
qed

lemma logs_only_pure:
  "P [] \<Longrightarrow> logs_only P (return_io a)"
  "P [] \<Longrightarrow> logs_only P (raise_io e)"
  "P [] \<Longrightarrow> logs_only P (lift_io x)"
  by (auto simp: logs_only_def return_io_def raise_io_def lift_io_def)

lemma logs_only_one:
  assumes "\<And>w r w'. m w = (r, w') \<Longrightarrow> w' = w \<or> (\<exists>e. log w' = log w @ [e] \<and> P [e])" and "P []"
  shows "logs_only P m"
proof (rule logs_onlyI)
  fix w r w'
  assume "m w = (r, w')"
  from assms(1) [OF this] assms(2) show "\<exists>evs. log w' = log w @ evs \<and> P evs"
    by (metis append_Nil2)
qed

text \<open>The calls that move nothing.\<close>

lemma unmoved_calls:
  assumes "P []" and "\<And>e. (\<forall>a b. e \<noteq> Ev_move a b) \<Longrightarrow> P [e]"
  shows "logs_only P (open_w p)" and "logs_only P (write_file p c)"
    and "logs_only P (json_dump d p)" and "logs_only P (open_r p)"
    and "logs_only P (shutil_rmtree p)" and "logs_only P (os_makedirs p)"
    and "logs_only P (os_mkdir p)" and "logs_only P (get_json u)"
    and "logs_only P (os_listdir p)" and "logs_only P (shutil_copytree p q)"
  by (rule logs_only_one [where P = P];
      auto simp: open_w_def write_file_def json_dump_def open_r_def shutil_rmtree_def
        os_makedirs_def os_mkdir_def get_json_def os_listdir_def shutil_copytree_def
        emit_def assms split: option.splits fs_node.splits if_splits)+


lemma logs_only_download_stream:
  assumes "P []" and app: "\<And>a b. P a \<Longrightarrow> P b \<Longrightarrow> P (a @ b)"
    and one: "\<And>e. (\<forall>a b. e \<noteq> Ev_move a b) \<Longrightarrow> P [e]"
  shows "logs_only P (download_stream u p)"
proof (rule logs_onlyI)
  fix w r w'
  assume run: "download_stream u p w = (r, w')"
  have d: "P [Ev_download u]" by (rule one) simp
  show "\<exists>evs. log w' = log w @ evs \<and> P evs"
  proof (cases "zip_stream w u")
    case (Inl e)
    with run have "log w' = log w @ [Ev_download u]"
      by (auto simp: download_stream_def emit_def)
    with d show ?thesis by blast
  next
    case (Inr c)
    have "P [Ev_write p c]" by (rule one) simp
    with d have "P ([Ev_download u] @ [Ev_write p c])" by (rule app)
    moreover from Inr run have "log w' = log w @ [Ev_download u] @ [Ev_write p c]"
      by (auto simp: download_stream_def write_file_def emit_def)
    ultimately show ?thesis by blast
  qed
qed

lemma logs_only_zip_extractall:
  assumes "P []" and app: "\<And>a b. P a \<Longrightarrow> P b \<Longrightarrow> P (a @ b)"
    and one: "\<And>e. (\<forall>a b. e \<noteq> Ev_move a b) \<Longrightarrow> P [e]"
  shows "logs_only P (zip_extractall z d)"
  unfolding zip_extractall_def
proof (rule logs_only_bind [OF assms(1) app unmoved_calls(4) [OF assms(1) one]])
  fix c
  show "logs_only P (case c of
          Bytes b \<Rightarrow> raise_io BadZipfile
        | JsonDict d \<Rightarrow> raise_io BadZipfile
        | ZipOf members \<Rightarrow>
            \<lambda>w. (Inr (), emit (Ev_extract z d) (w\<lparr>nodes := fold (extract_member d) members (nodes w)\<rparr>)))"
  proof (cases c)
    case (ZipOf ms)
    have "P [Ev_extract z d]" by (rule one) simp
    then show ?thesis
      unfolding ZipOf by (auto intro!: logs_onlyI simp: emit_def)
  qed (simp_all add: logs_only_pure assms(1))
qed (assumption+)

lemma logs_only_get_checksums:
  assumes "P []" and app: "\<And>a b. P a \<Longrightarrow> P b \<Longrightarrow> P (a @ b)"
    and one: "\<And>e. (\<forall>a b. e \<noteq> Ev_move a b) \<Longrightarrow> P [e]"
  shows "logs_only P (get_checksums fg)"
  unfolding get_checksums_def
  by (cases "uri fg")
    (auto intro!: logs_only_bind app logs_only_pure unmoved_calls(8) assms(1) one)

lemma logs_only_copyfile:
  assumes "P []" and app: "\<And>a b. P a \<Longrightarrow> P b \<Longrightarrow> P (a @ b)"
    and one: "\<And>e. (\<forall>a b. e \<noteq> Ev_move a b) \<Longrightarrow> P [e]"
  shows "logs_only P (shutil_copyfile a b)"
  unfolding shutil_copyfile_def
  by (auto intro!: logs_only_bind app unmoved_calls assms(1) one)

lemma logs_only_each:
  assumes "P []" and app: "\<And>a b. P a \<Longrightarrow> P b \<Longrightarrow> P (a @ b)"
    and f: "\<And>x. logs_only P (f x)"
  shows "logs_only P (each_io f xs)"
  by (induction xs) (auto intro!: logs_only_bind logs_only_pure app assms(1) f)

text \<open>A move lands on the destination or right below it.\<close>

lemma logs_only_move:
  assumes "P []" and one: "\<And>b. b = dst \<or> prefix (dst @ ''/'') b \<Longrightarrow> P [Ev_move src b]"
  shows "logs_only P (shutil_move src dst)"
proof (rule logs_only_one [where P = P])
  fix w r w'
  assume "shutil_move src dst w = (r, w')"
  then show "w' = w \<or> (\<exists>e. log w' = log w @ [e] \<and> P [e])"
    by (auto simp: shutil_move_def emit_def Let_def one split: if_splits)
qed (rule assms(1))


lemma logs_only_first_match: "P [] \<Longrightarrow> logs_only P (\<lambda>w. first_match (g w) w)"
  by (auto intro!: logs_onlyI simp: first_match_def raise_io_def return_io_def split: list.splits)

lemma logs_only_download_file_group:
  assumes nil: "P []" and app: "\<And>a b. P a \<Longrightarrow> P b \<Longrightarrow> P (a @ b)"
    and one: "\<And>e. (\<forall>a b. e \<noteq> Ev_move a b) \<Longrightarrow> P [e]"
    and mv: "\<And>a b. b = cp \<or> prefix (cp @ ''/'') b \<Longrightarrow> P [Ev_move a b]"
  shows "logs_only P (download_file_group tmp u fg cp)"
  unfolding download_file_group_def Let_def
  by (intro logs_only_bind logs_only_catch nil app unmoved_calls [OF nil one]
      logs_only_download_stream [OF nil app one] logs_only_get_checksums [OF nil app one]
      logs_only_zip_extractall [OF nil app one] logs_only_first_match
      logs_only_move [OF nil mv])
    (auto intro: logs_only_pure nil)

lemma logs_only_copy_to_cache:
  assumes nil: "P []" and app: "\<And>a b. P a \<Longrightarrow> P b \<Longrightarrow> P (a @ b)"
    and one: "\<And>e. (\<forall>a b. e \<noteq> Ev_move a b) \<Longrightarrow> P [e]"
  shows "logs_only P (copy_to_cache f fg cp)"
proof -
  have r: "logs_only P (\<lambda>w. if op_exists cp w then shutil_rmtree cp w else (Inr (), w))"
  proof (rule logs_onlyI)
    fix w r w'
    assume "(if op_exists cp w then shutil_rmtree cp w else (Inr (), w)) = (r, w')"
    then consider "shutil_rmtree cp w = (r, w')" | "w' = w"
      by (auto split: if_splits)
    then show "\<exists>evs. log w' = log w @ evs \<and> P evs"
    proof cases
      case 1
      from logs_onlyD [OF unmoved_calls(5) [OF nil one] this] show ?thesis by simp
    next
      case 2
      with nil show ?thesis by simp
    qed
  qed
  show ?thesis
    unfolding copy_to_cache_def
    by (intro logs_only_bind nil app r unmoved_calls [OF nil one])
      (auto intro!: logs_only_bind logs_only_each logs_only_copyfile nil app one
        unmoved_calls [OF nil one])
qed

lemma moved_onto_simps [simp]:
  "moved_onto [] = []" "moved_onto (a @ b) = moved_onto a @ moved_onto b"
  "moved_onto [Ev_move x y] = [y]"
  by (simp_all add: moved_onto_def)

lemma moved_onto_other: "\<forall>a b. e \<noteq> Ev_move a b \<Longrightarrow> moved_onto [e] = []"
  by (cases e) (simp_all add: moved_onto_def)

lemma bind_io_InrE:
  assumes "bind_io m f w = (Inr b, w')"
  obtains a w1 where "m w = (Inr a, w1)" and "f a w1 = (Inr b, w')"
  using assms by (auto simp: bind_io_def split: prod.splits sum.splits)

lemma download_file_group_steps:
  assumes "download_file_group tmp u fg cp w = (Inr (), w')"
  obtains w1 w2 m w3 w4 d w5 w6 w7 w8 where
    "open_w (op_join tmp [''download.zip'']) w = (Inr (), w1)" and
    "download_stream (u @ ''/files'') (op_join tmp [''download.zip'']) w1 = (Inr (), w2)" and
    "get_checksums fg w2 = (Inr m, w3)" and
    "catch_io (zip_extractall (op_join tmp [''download.zip'']) (op_join tmp [''expanded'']))
           (\<lambda>e. if e = BadZipfile then raise_io (ArcanaError ''Could not unzip file'')
                else raise_io e) w3 = (Inr (), w4)" and
    "first_match (glob_files (op_join tmp [''expanded'']) w4) w4 = (Inr d, w5)" and
    "catch_io (shutil_rmtree cp)
           (\<lambda>e. if e = OSError ENOENT then return_io () else raise_io e) w5 = (Inr (), w6)" and
    "shutil_move d cp w6 = (Inr (), w7)" and
    "open_w (cp @ MD5_SUFFIX) w7 = (Inr (), w8)" and
    "json_dump m (cp @ MD5_SUFFIX) w8 = (Inr (), w')"
  using assms unfolding download_file_group_def Let_def
  apply (elim bind_io_InrE)
  subgoal premises p for a1 w1 a2 w2 m w3 a4 w4 d w5 a6 w6 a7 w7 a8 w8
    using p(1) [of w1 w2 m w3 w4 d w5 w6 w7 w8] p(2-) by simp
  done


lemma log_grows: "logs_only (\<lambda>_. True) m \<Longrightarrow> m w = (r, w') \<Longrightarrow> prefix (log w) (log w')"
  by (auto dest!: logs_onlyD)

lemma download_file_group_tail:
  assumes "download_file_group tmp u fg cp w = (Inr (), w')"
  shows "\<exists>evs m. log w' = log w @ evs @
           [Ev_open_w (cp @ MD5_SUFFIX), Ev_write (cp @ MD5_SUFFIX) (JsonDict m)]"
proof -
  from assms obtain w1 w2 m w3 w4 d w5 w6 w7 w8 where
    s1: "open_w (op_join tmp [''download.zip'']) w = (Inr (), w1)" and
    s2: "download_stream (u @ ''/files'') (op_join tmp [''download.zip'']) w1 = (Inr (), w2)" and
    s3: "get_checksums fg w2 = (Inr m, w3)" and
    s4: "catch_io (zip_extractall (op_join tmp [''download.zip'']) (op_join tmp [''expanded'']))
           (\<lambda>e. if e = BadZipfile then raise_io (ArcanaError ''Could not unzip file'')
                else raise_io e) w3 = (Inr (), w4)" and
    s5: "first_match (glob_files (op_join tmp [''expanded'']) w4) w4 = (Inr d, w5)" and
    s6: "catch_io (shutil_rmtree cp)
           (\<lambda>e. if e = OSError ENOENT then return_io () else raise_io e) w5 = (Inr (), w6)" and
    s7: "shutil_move d cp w6 = (Inr (), w7)" and
    s8: "open_w (cp @ MD5_SUFFIX) w7 = (Inr (), w8)" and
    s9: "json_dump m (cp @ MD5_SUFFIX) w8 = (Inr (), w')"
    by (rule download_file_group_steps)
  have t: "(\<lambda>_. True) []" "\<And>a b. (\<lambda>_. True) a \<Longrightarrow> (\<lambda>_. True) b \<Longrightarrow> (\<lambda>_. True) (a @ b)"
    by simp_all
  have p1: "prefix (log w) (log w1)"
    by (rule log_grows [OF unmoved_calls(1) s1]) simp_all
  have p2: "prefix (log w1) (log w2)"
    by (rule log_grows [OF logs_only_download_stream s2]) simp_all
  have p3: "prefix (log w2) (log w3)"
    by (rule log_grows [OF logs_only_get_checksums s3]) simp_all
  have "logs_only (\<lambda>_. True)
      (catch_io (zip_extractall (op_join tmp [''download.zip'']) (op_join tmp [''expanded'']))
           (\<lambda>e. if e = BadZipfile then raise_io (ArcanaError ''Could not unzip file'')
                else raise_io e))"
    by (rule logs_only_catch) (simp_all add: logs_only_zip_extractall logs_only_pure)
  from log_grows [OF this s4] have p4: "prefix (log w3) (log w4)" .
  from s5 have p5: "w5 = w4"
    by (auto simp: first_match_def raise_io_def return_io_def split: list.splits)
  have "logs_only (\<lambda>_. True)
      (catch_io (shutil_rmtree cp) (\<lambda>e. if e = OSError ENOENT then return_io () else raise_io e))"
    by (rule logs_only_catch) (simp_all add: unmoved_calls logs_only_pure)
  from log_grows [OF this s6] have p6: "prefix (log w5) (log w6)" .
  have p7: "prefix (log w6) (log w7)"
    by (rule log_grows [OF logs_only_move s7]) simp_all
  from p1 p2 p3 p4 p5 p6 p7 have "prefix (log w) (log w7)"
    by (metis prefix_order.trans)
  then obtain evs where "log w7 = log w @ evs" by (auto simp: prefix_def)
  moreover from s8 have "log w8 = log w7 @ [Ev_open_w (cp @ MD5_SUFFIX)]"
    by (auto simp: open_w_def emit_def split: if_splits)
  moreover from s9 have "log w' = log w8 @ [Ev_write (cp @ MD5_SUFFIX) (JsonDict m)]"
    by (auto simp: json_dump_def write_file_def emit_def)
  ultimately show ?thesis by simp
qed

lemma copy_to_cache_tail:
  assumes "copy_to_cache f fg cp w = (Inr (), w')"
  shows "\<exists>evs. log w' = log w @ evs @
           [Ev_open_w (cp @ MD5_SUFFIX),
            Ev_write (cp @ MD5_SUFFIX) (JsonDict (calculate_checksums fg))]"
proof -
  let ?stage = "bind_io (\<lambda>w. if op_exists cp w then shutil_rmtree cp w else (Inr (), w)) (\<lambda>_.
     bind_io (os_makedirs cp) (\<lambda>_.
       (if directory f then shutil_copytree (local_cache fg) cp
        else
          bind_io (shutil_copyfile (local_cache fg) (op_join cp [fname fg])) (\<lambda>_.
          each_io (\<lambda>sc. shutil_copyfile (snd sc) (op_join cp [fst sc]))
            (aux_file_fnames_and_paths fg)))))"
  from assms obtain w3 w4 where
    st: "?stage w = (Inr (), w3)" and
    s8: "open_w (cp @ MD5_SUFFIX) w3 = (Inr (), w4)" and
    s9: "json_dump (calculate_checksums fg) (cp @ MD5_SUFFIX) w4 = (Inr (), w')"
    unfolding copy_to_cache_def
    apply (elim bind_io_InrE)
    subgoal premises p for a1 w1 a2 w2 a3 w3 a4 w4
      using p(1) [of w3 w4] p(2-) by (simp add: bind_io_def)
    done
  have r: "logs_only (\<lambda>_. True) (\<lambda>w. if op_exists cp w then shutil_rmtree cp w else (Inr (), w))"
    by (auto intro!: logs_onlyI simp: shutil_rmtree_def emit_def
        split: option.splits fs_node.splits if_splits)
  have "logs_only (\<lambda>_. True) ?stage"
    by (intro logs_only_bind r unmoved_calls)
      (auto intro!: logs_only_bind logs_only_each logs_only_copyfile unmoved_calls)
  from log_grows [OF this st] obtain evs where "log w3 = log w @ evs"
    by (auto simp: prefix_def)
  moreover from s8 have "log w4 = log w3 @ [Ev_open_w (cp @ MD5_SUFFIX)]"
    by (auto simp: open_w_def emit_def split: if_splits)
  moreover from s9 have "log w' = log w4 @ [Ev_write (cp @ MD5_SUFFIX) (JsonDict (calculate_checksums fg))]"
    by (auto simp: json_dump_def write_file_def emit_def)
  ultimately show ?thesis by simp
qed


section \<open>Writing the manifest\<close>

text \<open>
  C3, amended: neither \<open>download_file_group\<close> nor the copy into the cache of
  \<open>put_file_group\<close> ever moves (renames) anything onto the manifest path, whatever the
  outcome; when either succeeds, the last two things it did are to open
  \<open><cache path>.md5.json\<close> itself for writing and to dump the checksums into it. So the
  manifest is written in place, and is there and empty in between.
\<close>

theorem manifest_written_in_place:
  "logs_only (\<lambda>evs. cp @ MD5_SUFFIX \<notin> set (moved_onto evs)) (download_file_group tmp u fg cp) \<and>
   logs_only (\<lambda>evs. cp @ MD5_SUFFIX \<notin> set (moved_onto evs)) (copy_to_cache f fg cp) \<and>
   (download_file_group tmp u fg cp w = (Inr (), w') \<longrightarrow>
      (\<exists>evs m. log w' = log w @ evs @
         [Ev_open_w (cp @ MD5_SUFFIX), Ev_write (cp @ MD5_SUFFIX) (JsonDict m)])) \<and>
   (copy_to_cache f fg cp w = (Inr (), w') \<longrightarrow>
      (\<exists>evs. log w' = log w @ evs @
         [Ev_open_w (cp @ MD5_SUFFIX),
          Ev_write (cp @ MD5_SUFFIX) (JsonDict (calculate_checksums fg))]))"
proof (intro conjI impI)
  show "logs_only (\<lambda>evs. cp @ MD5_SUFFIX \<notin> set (moved_onto evs)) (download_file_group tmp u fg cp)"
    by (rule logs_only_download_file_group)
      (auto simp: moved_onto_other MD5_SUFFIX_def prefix_def)
  show "logs_only (\<lambda>evs. cp @ MD5_SUFFIX \<notin> set (moved_onto evs)) (copy_to_cache f fg cp)"
    by (rule logs_only_copy_to_cache) (auto simp: moved_onto_other)
qed (erule download_file_group_tail copy_to_cache_tail)+

text \<open>
  C3, as the claim states it, fails: a complete first download opens the manifest path
  for writing and puts nothing there by a rename.
\<close>

theorem manifest_not_written_by_rename:
  "(case get_file_group_paths repo0 hier0 [] fg0 w0 of
      (r, w') \<Rightarrow>
        map_sum id snd r = Inr (cp0 @ ''/a.txt'', Some []) \<and>
        Ev_open_w (cp0 @ MD5_SUFFIX) \<in> set (log w') \<and>
        \<not> written_by_rename (cp0 @ MD5_SUFFIX) (log w'))"
  by code_simp

theorem manifest_written_in_place_witness:
  "fst (download_file_group (cp0 @ ''.download'') ''/data/archive/projects/P/resources/a'' fg0 cp0 w_stale) =
     Inr () \<and>
   (\<exists>evs m.
      log (snd (download_file_group (cp0 @ ''.download'') ''/data/archive/projects/P/resources/a'' fg0 cp0 w_stale)) =
      log w_stale @ evs @ [Ev_open_w (cp0 @ MD5_SUFFIX), Ev_write (cp0 @ MD5_SUFFIX) (JsonDict m)])"
proof -
  let ?run = "download_file_group (cp0 @ ''.download'') ''/data/archive/projects/P/resources/a'' fg0 cp0 w_stale"
  have ok: "fst ?run = Inr ()" by code_simp
  then have "?run = (Inr (), snd ?run)" by (metis prod.collapse)
  with manifest_written_in_place
    [of cp0 "cp0 @ ''.download''" "''/data/archive/projects/P/resources/a''" fg0 _ w_stale "snd ?run"]
  have "\<exists>evs m. log (snd ?run) =
      log w_stale @ evs @ [Ev_open_w (cp0 @ MD5_SUFFIX), Ev_write (cp0 @ MD5_SUFFIX) (JsonDict m)]"
    by blast
  with ok show ?thesis by simp
qed

section \<open>A marker nobody touches\<close>

text \<open>
  C2 at a world with a marker directory that nobody touches and nothing cached: the call
  of \<open>get_file_group_paths\<close> raises the AttributeError of line 210 and leaves the world
  as it was, so the marker is neither removed nor is anything downloaded. And
  \<open>_delayed_download\<close> itself, called on that world, removes the marker, makes it again
  and downloads, and the marker directory made by \<open>os.mkdir\<close> is still there when it
  returns (it has no \<open>shutil.rmtree(tmp_dir)\<close>, the branch of the direct download has).
\<close>

theorem stale_marker_raises_and_stays:
  "get_file_group_paths repo0 hier0 [] fg0 w_stale = (Inl AttributeError, w_stale) \<and>
   op_exists (cp0 @ ''.download'') w_stale \<and>
   (case delayed_download [] (cp0 @ ''.download'') ''/data/archive/projects/P/resources/a'' fg0 cp0 30
           w_stale of
      (r, w') \<Rightarrow>
        r = Inr () \<and>
        take 2 (log w') = [Ev_rmtree (cp0 @ ''.download''), Ev_mkdir (cp0 @ ''.download'')] \<and>
        downloads (log w') = [''/data/archive/projects/P/resources/a/files''] \<and>
        op_exists cp0 w' \<and>
        op_exists (cp0 @ ''.download'') w')"
proof -
  have marker: "op_exists (cp0 @ ''.download'') w_stale"
    by (simp add: op_exists_def w_stale_def w0_def)
  have "need_to_download repo0 fg0 cp0 w_stale = (Inr True, w_stale)"
    by (simp add: need_to_download_def op_exists_def w_stale_def w0_def cp0_def)
  then have call: "get_file_group_paths repo0 hier0 [] fg0 w_stale = (Inl AttributeError, w_stale)"
    using marker
    by (simp add: get_file_group_paths_def check_repository_def bind_io_def return_io_def
        assign_uri_def lift_io_def fill_cache_def os_makedirs_def race_cond_delay_def)
  have direct:
    "(case delayed_download [] (cp0 @ ''.download'') ''/data/archive/projects/P/resources/a'' fg0 cp0 30
           w_stale of
      (r, w') \<Rightarrow>
        r = Inr () \<and>
        take 2 (log w') = [Ev_rmtree (cp0 @ ''.download''), Ev_mkdir (cp0 @ ''.download'')] \<and>
        downloads (log w') = [''/data/archive/projects/P/resources/a/files''] \<and>
        op_exists cp0 w' \<and>
        op_exists (cp0 @ ''.download'') w')"
    by code_simp
  from call marker direct show ?thesis by simp
qed

section \<open>Calls that leave the server alone\<close>

lemma keeps_serverI: "(\<And>w r w'. m w = (r, w') \<Longrightarrow> same_server w w') \<Longrightarrow> keeps_server m"
  by (simp add: keeps_server_def)

lemma keeps_serverD: "keeps_server m \<Longrightarrow> m w = (r, w') \<Longrightarrow> same_server w w'"
  by (simp add: keeps_server_def)

lemma keeps_server_bind:
  assumes m: "keeps_server m" and f: "\<And>a. keeps_server (f a)"
  shows "keeps_server (bind_io m f)"
proof (rule keeps_serverI)
  fix w r w'
  assume run: "bind_io m f w = (r, w')"
  obtain r1 w1 where m1: "m w = (r1, w1)" by (cases "m w")
  from keeps_serverD [OF m m1] have s1: "same_server w w1" .
  show "same_server w w'"
  proof (cases r1)
    case (Inl e)
    with run m1 s1 show ?thesis by (simp add: bind_io_def)
  next
    case (Inr a)
    with run m1 have "f a w1 = (r, w')" by (simp add: bind_io_def)
    from keeps_serverD [OF f this] s1 show ?thesis by (rule same_server_trans [rotated])
  qed
qed

lemma keeps_server_catch:
  assumes m: "keeps_server m" and h: "\<And>e. keeps_server (h e)"
  shows "keeps_server (catch_io m h)"
proof (rule keeps_serverI)
  fix w r w'
  assume run: "catch_io m h w = (r, w')"
  obtain r1 w1 where m1: "m w = (r1, w1)" by (cases "m w")
  from keeps_serverD [OF m m1] have s1: "same_server w w1" .
  show "same_server w w'"
  proof (cases r1)
    case (Inr a)
    with run m1 s1 show ?thesis by (simp add: catch_io_def)
  next
    case (Inl e)
    with run m1 have "h e w1 = (r, w')" by (simp add: catch_io_def)
    from keeps_serverD [OF h this] s1 show ?thesis by (rule same_server_trans [rotated])
  qed
qed

lemma keeps_server_pure:
  "keeps_server (return_io a)" "keeps_server (raise_io e)" "keeps_server (lift_io x)"
  by (auto simp: keeps_server_def return_io_def raise_io_def lift_io_def same_server_def)

lemma keeps_server_calls:
  "keeps_server (open_w p)" "keeps_server (write_file p c)" "keeps_server (json_dump d p)"
  "keeps_server (open_r p)" "keeps_server (shutil_rmtree p)" "keeps_server (os_makedirs p)"
  "keeps_server (os_mkdir p)" "keeps_server (get_json u)" "keeps_server (os_listdir p)"
  "keeps_server (shutil_copytree p q)" "keeps_server (shutil_move p q)"
  "keeps_server (download_stream u p)"
  by (auto simp: keeps_server_def same_server_def open_w_def write_file_def json_dump_def
      open_r_def shutil_rmtree_def os_makedirs_def os_mkdir_def get_json_def os_listdir_def
      shutil_copytree_def shutil_move_def download_stream_def emit_def Let_def
      split: option.splits fs_node.splits if_splits sum.splits)

lemma keeps_server_each: "(\<And>x. keeps_server (f x)) \<Longrightarrow> keeps_server (each_io f xs)"
  by (induction xs) (auto intro!: keeps_server_bind keeps_server_pure)

lemma keeps_server_copyfile: "keeps_server (shutil_copyfile a b)"
  unfolding shutil_copyfile_def by (intro keeps_server_bind keeps_server_calls)

lemma keeps_server_copy_to_cache: "keeps_server (copy_to_cache f fg cp)"
proof -
  have r: "keeps_server (\<lambda>w. if op_exists cp w then shutil_rmtree cp w else (Inr (), w))"
    using keeps_server_calls(5) [of cp]
    by (auto simp: keeps_server_def same_server_refl split: if_splits)
  show ?thesis
    unfolding copy_to_cache_def
    by (intro keeps_server_bind r keeps_server_calls)
      (auto intro!: keeps_server_bind keeps_server_each keeps_server_copyfile keeps_server_calls)
qed

section \<open>Replacing the remote resource\<close>

lemma each_upload:
  "\<exists>w'. each_io (\<lambda>x. xresource_upload n (g x)) xs w = (Inr (), w') \<and>
        log w' = log w @ map (\<lambda>x. Ev_upload n (g x)) xs \<and>
        map_of (resources w') n =
          map_option (\<lambda>r. r\<lparr>res_files := res_files r @ map g xs\<rparr>) (map_of (resources w) n)"
proof (induction xs arbitrary: w)
  case Nil
  then show ?case by (simp add: return_io_def option.map_ident)
next
  case (Cons x xs)
  let ?w1 = "emit (Ev_upload n (g x))
      (w\<lparr>resources := AList.map_entry n (\<lambda>r. r\<lparr>res_files := res_files r @ [g x]\<rparr>) (resources w)\<rparr>)"
  from Cons.IH [of ?w1] obtain w' where
    run: "each_io (\<lambda>x. xresource_upload n (g x)) xs ?w1 = (Inr (), w')" and
    lg: "log w' = log ?w1 @ map (\<lambda>x. Ev_upload n (g x)) xs" and
    rs: "map_of (resources w') n =
          map_option (\<lambda>r. r\<lparr>res_files := res_files r @ map g xs\<rparr>) (map_of (resources ?w1) n)"
    by blast
  have "each_io (\<lambda>x. xresource_upload n (g x)) (x # xs) w = (Inr (), w')"
    using run by (simp add: bind_io_def xresource_upload_def)
  moreover have "log w' = log w @ map (\<lambda>x. Ev_upload n (g x)) (x # xs)"
    using lg by (simp add: emit_def)
  moreover have "map_of (resources w') n =
          map_option (\<lambda>r. r\<lparr>res_files := res_files r @ map g (x # xs)\<rparr>) (map_of (resources w) n)"
    using rs by (simp add: emit_def map_of_map_entry split: option.splits)
  ultimately show ?case by blast
qed

lemma replace_resource_run:
  assumes "map_of (resources w) n = Some xr"
  shows "\<exists>w' names. replace_resource f fg n w = (Inr (), w') \<and>
           log w' = log w @ [Ev_delete_resource n, Ev_create_resource n (format_name f)] @
                    map (Ev_upload n) names \<and>
           map_of (resources w') n =
             Some \<lparr>label = n, res_format = format_name f, res_files = names\<rparr> \<and>
           (\<not> directory f \<longrightarrow> names = fname fg # map fst (aux_file_fnames_and_paths fg))"
proof -
  let ?wd = "emit (Ev_delete_resource n) (w\<lparr>resources := AList.delete n (resources w)\<rparr>)"
  let ?wc = "emit (Ev_create_resource n (format_name f))
      (?wd\<lparr>resources := AList.update n \<lparr>label = n, res_format = format_name f, res_files = []\<rparr>
          (resources ?wd)\<rparr>)"
  have lc: "log ?wc = log w @ [Ev_delete_resource n, Ev_create_resource n (format_name f)]"
    by (simp add: emit_def)
  have rc: "map_of (resources ?wc) n = Some \<lparr>label = n, res_format = format_name f, res_files = []\<rparr>"
    by (simp add: emit_def update_conv')
  show ?thesis
  proof (cases "directory f")
    case True
    let ?qs = "map fst (filter (\<lambda>(q, x). prefix (local_cache fg @ ''/'') q \<and> x \<noteq> Dir) (nodes ?wc))"
    from each_upload [of n "\<lambda>q. drop (Suc (length (local_cache fg))) q" ?qs ?wc]
    obtain w' where
      run: "each_io (\<lambda>q. xresource_upload n (drop (Suc (length (local_cache fg))) q)) ?qs ?wc = (Inr (), w')" and
      lg: "log w' = log ?wc @ map (\<lambda>q. Ev_upload n (drop (Suc (length (local_cache fg))) q)) ?qs" and
      rs: "map_of (resources w') n =
          map_option (\<lambda>r. r\<lparr>res_files := res_files r @ map (\<lambda>q. drop (Suc (length (local_cache fg))) q) ?qs\<rparr>)
            (map_of (resources ?wc) n)"
      by blast
    have "replace_resource f fg n w = (Inr (), w')"
      using assms True run
      by (simp add: replace_resource_def bind_io_def xresource_delete_def create_resource_def)
    moreover have "log w' = log w @ [Ev_delete_resource n, Ev_create_resource n (format_name f)] @
        map (Ev_upload n) (map (\<lambda>q. drop (Suc (length (local_cache fg))) q) ?qs)"
      using lg lc by (simp add: comp_def)
    moreover have "map_of (resources w') n = Some \<lparr>label = n, res_format = format_name f,
        res_files = map (\<lambda>q. drop (Suc (length (local_cache fg))) q) ?qs\<rparr>"
      using rs rc by simp
    ultimately show ?thesis using True by blast
  next
    case False
    let ?w1 = "emit (Ev_upload n (fname fg))
      (?wc\<lparr>resources := AList.map_entry n (\<lambda>r. r\<lparr>res_files := res_files r @ [fname fg]\<rparr>) (resources ?wc)\<rparr>)"
    from each_upload [of n fst "aux_file_fnames_and_paths fg" ?w1]
    obtain w' where
      run: "each_io (\<lambda>sc. xresource_upload n (fst sc)) (aux_file_fnames_and_paths fg) ?w1 = (Inr (), w')" and
      lg: "log w' = log ?w1 @ map (\<lambda>x. Ev_upload n (fst x)) (aux_file_fnames_and_paths fg)" and
      rs: "map_of (resources w') n =
          map_option (\<lambda>r. r\<lparr>res_files := res_files r @ map fst (aux_file_fnames_and_paths fg)\<rparr>)
            (map_of (resources ?w1) n)"
      by blast
    have "replace_resource f fg n w = (Inr (), w')"
      using assms False run
      by (simp add: replace_resource_def bind_io_def xresource_delete_def create_resource_def
          xresource_upload_def)
    moreover have "log w' = log w @ [Ev_delete_resource n, Ev_create_resource n (format_name f)] @
        map (Ev_upload n) (fname fg # map fst (aux_file_fnames_and_paths fg))"
      using lg by (simp add: emit_def comp_def)
    moreover have "map_of (resources w') n = Some \<lparr>label = n, res_format = format_name f,
        res_files = fname fg # map fst (aux_file_fnames_and_paths fg)\<rparr>"
      using rs by (simp add: emit_def update_conv' map_of_map_entry)
    ultimately show ?thesis by blast
  qed
qed


text \<open>
  C8: for a file group without a URI (the case in which \<open>put_file_group\<close> binds
  \<open>name\<close>) and without provenance, once the copy into the cache has succeeded and the
  node has a resource under the escaped name, \<open>put_file_group\<close> returns, and what it
  does after the copy is, in this order: delete that resource, create the new one,
  upload the files. Right after the delete the node has no resource of that name (the
  old one is gone and the new one is not created yet); at the end the new resource
  holds exactly the uploaded files.
\<close>

theorem put_file_group_deletes_then_creates:
  assumes "fmt fg = Some f" and "repository_id fg = repo_id repo"
    and "uri fg = None" and "escape_name hierarchy fg = Inr n" and "provenance fg = None"
    and "map_of (resources w) n = Some xr"
    and "cache_path repo (Some (node_uri w @ ''/resources/'' @ n)) = Inr cp"
    and "copy_to_cache f (fg\<lparr>uri := Some (node_uri w @ ''/resources/'' @ n)\<rparr>) cp w = (Inr (), w1)"
  shows "\<exists>w' names.
           put_file_group repo hierarchy fg w =
             (Inr (fg\<lparr>uri := Some (node_uri w @ ''/resources/'' @ n)\<rparr>), w') \<and>
           log w' = log w1 @ [Ev_delete_resource n, Ev_create_resource n (format_name f)] @
                    map (Ev_upload n) names \<and>
           (\<not> directory f \<longrightarrow> names = fname fg # map fst (aux_file_fnames_and_paths fg)) \<and>
           map_of (resources w1) n = Some xr \<and>
           map_of (resources (snd (xresource_delete n w1))) n = None \<and>
           map_of (resources w') n =
             Some \<lparr>label = n, res_format = format_name f, res_files = names\<rparr>"
proof -
  let ?fg = "fg\<lparr>uri := Some (node_uri w @ ''/resources/'' @ n)\<rparr>"
  from keeps_serverD [OF keeps_server_copy_to_cache assms(8)] assms(6)
  have r1: "map_of (resources w1) n = Some xr" by (simp add: same_server_def)
  from replace_resource_run [OF r1, of f ?fg] obtain w' names where
    run: "replace_resource f ?fg n w1 = (Inr (), w')" and
    lg: "log w' = log w1 @ [Ev_delete_resource n, Ev_create_resource n (format_name f)] @
                    map (Ev_upload n) names" and
    rs: "map_of (resources w') n = Some \<lparr>label = n, res_format = format_name f, res_files = names\<rparr>" and
    nm: "\<not> directory f \<longrightarrow> names = fname ?fg # map fst (aux_file_fnames_and_paths ?fg)"
    by blast
  have na: "name_and_uri hierarchy fg w = (Inr (Some n, ?fg), w)"
    using assms(3,4) by (simp add: name_and_uri_def)
  have "put_file_group repo hierarchy fg w = (Inr ?fg, w')"
    using assms(1,2,5,7,8) na run
    by (simp add: put_file_group_def check_repository_def bind_io_def return_io_def lift_io_def
        Let_def)
  moreover have "map_of (resources (snd (xresource_delete n w1))) n = None"
    by (simp add: xresource_delete_def emit_def delete_conv')
  ultimately show ?thesis using lg rs nm r1 by auto
qed

theorem put_file_group_deletes_then_creates_witness:
  "fmt fg_new = Some fmt0 \<and> repository_id fg_new = repo_id repo0 \<and> uri fg_new = None \<and>
   escape_name hier0 fg_new = Inr ''a'' \<and> provenance fg_new = None \<and>
   map_of (resources w_put) ''a'' =
     Some \<lparr>label = ''a'', res_format = ''text'', res_files = [''old.txt'']\<rparr> \<and>
   cache_path repo0 (Some (node_uri w_put @ ''/resources/'' @ ''a'')) = Inr cp0 \<and>
   fst (copy_to_cache fmt0 (fg_new\<lparr>uri := Some (node_uri w_put @ ''/resources/'' @ ''a'')\<rparr>) cp0 w_put) =
     Inr () \<and>
   (\<exists>w'. put_file_group repo0 hier0 fg_new w_put =
           (Inr (fg_new\<lparr>uri := Some (node_uri w_put @ ''/resources/'' @ ''a'')\<rparr>), w') \<and>
         log w' =
           log (snd (copy_to_cache fmt0 (fg_new\<lparr>uri := Some (node_uri w_put @ ''/resources/'' @ ''a'')\<rparr>) cp0 w_put)) @
           [Ev_delete_resource ''a'', Ev_create_resource ''a'' ''text'', Ev_upload ''a'' ''a.txt''] \<and>
         map_of (resources w') ''a'' =
           Some \<lparr>label = ''a'', res_format = ''text'', res_files = [''a.txt'']\<rparr>)"
proof -
  let ?fg = "fg_new\<lparr>uri := Some (node_uri w_put @ ''/resources/'' @ ''a'')\<rparr>"
  let ?w1 = "snd (copy_to_cache fmt0 ?fg cp0 w_put)"
  have h1: "fmt fg_new = Some fmt0" by (simp add: fg_new_def)
  have h2: "repository_id fg_new = repo_id repo0" by (simp add: fg_new_def)
  have h3: "uri fg_new = None" by (simp add: fg_new_def)
  have h4: "escape_name hier0 fg_new = Inr ''a''"
    by (simp add: escape_name_def fg_new_def fg0_def)
  have h5: "provenance fg_new = None" by (simp add: fg_new_def fg0_def)
  have h6: "map_of (resources w_put) ''a'' =
      Some \<lparr>label = ''a'', res_format = ''text'', res_files = [''old.txt'']\<rparr>"
    by (simp add: w_put_def w0_def)
  have h7: "cache_path repo0 (Some (node_uri w_put @ ''/resources/'' @ ''a'')) = Inr cp0"
    by (simp add: w_put_def w0_def)
  have ok: "fst (copy_to_cache fmt0 ?fg cp0 w_put) = Inr ()" by code_simp
  then have h8: "copy_to_cache fmt0 ?fg cp0 w_put = (Inr (), ?w1)" by (metis prod.collapse)
  have f: "\<not> directory fmt0" "format_name fmt0 = ''text''" "fname fg_new = ''a.txt''"
    "aux_file_fnames_and_paths fg_new = []"
    by (simp_all add: fmt0_def fg_new_def fg0_def)
  from put_file_group_deletes_then_creates [OF h1 h2 h3 h4 h5 h6 h7 h8]
  obtain w' names where
    "put_file_group repo0 hier0 fg_new w_put = (Inr ?fg, w')"
    "log w' = log ?w1 @ [Ev_delete_resource ''a'', Ev_create_resource ''a'' (format_name fmt0)] @
        map (Ev_upload ''a'') names"
    "\<not> directory fmt0 \<longrightarrow> names = fname fg_new # map fst (aux_file_fnames_and_paths fg_new)"
    "map_of (resources w') ''a'' =
       Some \<lparr>label = ''a'', res_format = format_name fmt0, res_files = names\<rparr>"
    by blast
  with f have "\<exists>w'. put_file_group repo0 hier0 fg_new w_put = (Inr ?fg, w') \<and>
      log w' = log ?w1 @
        [Ev_delete_resource ''a'', Ev_create_resource ''a'' ''text'', Ev_upload ''a'' ''a.txt''] \<and>
      map_of (resources w') ''a'' =
        Some \<lparr>label = ''a'', res_format = ''text'', res_files = [''a.txt'']\<rparr>"
    by auto
  with h1 h2 h3 h4 h5 h6 h7 ok show ?thesis by blast
qed

section \<open>Calling twice\<close>

lemma get_checksums_eq:
  "get_checksums fg w =
     (remote_manifest fg w,
      case uri fg of None \<Rightarrow> w | Some u \<Rightarrow> emit (Ev_get_json (u @ ''/files'')) w)"
  by (simp add: get_checksums_def remote_manifest_def bind_io_def get_json_def lift_io_def
      raise_io_def split: option.splits sum.splits)

lemma remote_manifest_cong:
  "files_json v = files_json w \<Longrightarrow> remote_manifest fg v = remote_manifest fg w"
  by (simp add: remote_manifest_def split: option.splits)

lemma downloads_simps [simp]:
  "downloads [] = []" "downloads (a @ b) = downloads a @ downloads b"
  "downloads [Ev_get_json u] = []"
  by (simp_all add: downloads_def)

lemma get_checksums_frame:
  assumes "get_checksums fg w = (r, w')"
  shows "r = remote_manifest fg w" and "nodes w' = nodes w" and "same_server w w'"
    and "downloads (log w') = downloads (log w)"
  using assms
  by (auto simp: get_checksums_eq same_server_def emit_def split: option.splits)

lemma need_to_download_eq:
  "need_to_download repo fg cp w =
     (if op_exists cp w then
        if check_md5 repo then
          (case map_of (nodes w) (cp @ MD5_SUFFIX) of
             Some (File (JsonDict d)) \<Rightarrow>
               (case remote_manifest fg w of
                  Inl e \<Rightarrow> (Inl e, snd (get_checksums fg w))
                | Inr m \<Rightarrow> (Inr (\<not> dict_eq d m), snd (get_checksums fg w)))
           | Some (File (Bytes b)) \<Rightarrow> (Inl JSONDecodeError, w)
           | Some (File (ZipOf z)) \<Rightarrow> (Inl JSONDecodeError, w)
           | Some Dir \<Rightarrow> (Inr True, w)
           | None \<Rightarrow> (Inr True, w))
        else (Inr False, w)
      else (Inr True, w))"
  by (simp add: need_to_download_def bind_io_def open_r_def lift_io_def json_load_def
      fg_checksums_def return_io_def get_checksums_eq
      split: option.splits fs_node.splits content.splits sum.splits)

lemma need_to_download_frame:
  assumes "need_to_download repo fg cp w = (r, w')"
  shows "nodes w' = nodes w" and "same_server w w'" and "downloads (log w') = downloads (log w)"
  using assms
  by (auto simp: need_to_download_eq get_checksums_eq same_server_def emit_def
      split: if_splits option.splits fs_node.splits content.splits sum.splits)

lemma need_to_download_cong:
  assumes "nodes v = nodes w" and "files_json v = files_json w"
  shows "fst (need_to_download repo fg cp v) = fst (need_to_download repo fg cp w)"
  using assms remote_manifest_cong [OF assms(2), of fg]
  by (simp add: need_to_download_eq op_exists_def
      split: option.splits fs_node.splits content.splits sum.splits)

lemma dict_eq_refl: "dict_eq m m"
  by (simp add: dict_eq_def list_all_iff)

lemma need_to_download_valid:
  assumes "op_exists cp w"
    and "map_of (nodes w) (cp @ MD5_SUFFIX) = Some (File (JsonDict m))"
    and "remote_manifest fg w = Inr m"
  shows "fst (need_to_download repo fg cp w) = Inr False"
  using assms by (simp add: need_to_download_eq dict_eq_refl)

lemma cached_paths_world: "cached_paths f cp w = (r, w') \<Longrightarrow> w' = w"
  by (auto simp: cached_paths_def return_io_def bind_io_def os_listdir_def raise_io_def
      split: if_splits sum.splits)

lemma cached_paths_cong:
  "nodes v = nodes w \<Longrightarrow> fst (cached_paths f cp v) = fst (cached_paths f cp w)"
  by (auto simp: cached_paths_def return_io_def bind_io_def os_listdir_def raise_io_def
      op_exists_def split: if_splits sum.splits)

lemma assign_uri_result:
  assumes "assign_uri hierarchy f fgi w = (Inr fg, w')"
  shows "w' = w" and "fmt fg = fmt fgi" and "repository_id fg = repository_id fgi"
    and "\<exists>u. uri fg = Some u \<and> u \<noteq> []"
  using assms
  by (auto simp: assign_uri_def Let_def split: if_splits sum.splits option.splits)

lemma keeps_server_get_checksums: "keeps_server (get_checksums fg)"
  by (rule keeps_serverI) (rule get_checksums_frame(3))

lemma keeps_server_zip_extractall: "keeps_server (zip_extractall z d)"
  unfolding zip_extractall_def
proof (rule keeps_server_bind [OF keeps_server_calls(4)])
  fix c
  show "keeps_server (case c of
          Bytes b \<Rightarrow> raise_io BadZipfile
        | JsonDict d \<Rightarrow> raise_io BadZipfile
        | ZipOf members \<Rightarrow>
            \<lambda>w. (Inr (), emit (Ev_extract z d) (w\<lparr>nodes := fold (extract_member d) members (nodes w)\<rparr>)))"
    by (cases c) (auto simp: keeps_server_def same_server_def emit_def raise_io_def)
qed

lemma keeps_server_first_match: "keeps_server (\<lambda>w. first_match (g w) w)"
  by (auto intro!: keeps_serverI simp: first_match_def raise_io_def return_io_def same_server_refl
      split: list.splits)

lemma keeps_server_download_file_group: "keeps_server (download_file_group tmp u fg cp)"
  unfolding download_file_group_def Let_def
  by (intro keeps_server_bind keeps_server_catch keeps_server_calls keeps_server_get_checksums
      keeps_server_zip_extractall keeps_server_first_match)
    (auto intro: keeps_server_pure)

lemma rmtree_or_absent:
  assumes "catch_io (shutil_rmtree cp)
      (\<lambda>e. if e = OSError ENOENT then return_io () else raise_io e) w = (Inr (), w')"
  shows "map_of (nodes w') cp = None"
  using assms
  by (auto simp: catch_io_def shutil_rmtree_def return_io_def raise_io_def emit_def
      map_of_filter_keys under_def split: option.splits fs_node.splits if_splits)

lemma move_post:
  assumes "shutil_move d cp w = (Inr (), w')" and "map_of (nodes w) cp = None"
  shows "op_exists cp w'"
proof -
  from assms have ex: "op_exists d w"
    and nd: "nodes w' = map (\<lambda>(q, n). (if under d q then cp @ drop (length d) q else q, n)) (nodes w)"
    by (auto simp: shutil_move_def Let_def emit_def op_exists_def split: if_splits)
  from ex obtain n where "(d, n) \<in> set (nodes w)"
    by (auto simp: op_exists_def dest: map_of_SomeD)
  then have "(cp, n) \<in> set (nodes w')"
    unfolding nd by (force simp: under_def)
  then show ?thesis
    by (auto simp: op_exists_def map_of_eq_None_iff intro: rev_image_eqI)
qed

lemma download_file_group_post:
  assumes run: "download_file_group tmp u fg cp w = (Inr (), w')"
  shows "\<exists>m. remote_manifest fg w = Inr m \<and>
           map_of (nodes w') (cp @ MD5_SUFFIX) = Some (File (JsonDict m)) \<and>
           op_exists cp w' \<and> same_server w w'"
proof -
  from run obtain w1 w2 m w3 w4 d w5 w6 w7 w8 where
    s1: "open_w (op_join tmp [''download.zip'']) w = (Inr (), w1)" and
    s2: "download_stream (u @ ''/files'') (op_join tmp [''download.zip'']) w1 = (Inr (), w2)" and
    s3: "get_checksums fg w2 = (Inr m, w3)" and
    s4: "catch_io (zip_extractall (op_join tmp [''download.zip'']) (op_join tmp [''expanded'']))
           (\<lambda>e. if e = BadZipfile then raise_io (ArcanaError ''Could not unzip file'')
                else raise_io e) w3 = (Inr (), w4)" and
    s5: "first_match (glob_files (op_join tmp [''expanded'']) w4) w4 = (Inr d, w5)" and
    s6: "catch_io (shutil_rmtree cp)
           (\<lambda>e. if e = OSError ENOENT then return_io () else raise_io e) w5 = (Inr (), w6)" and
    s7: "shutil_move d cp w6 = (Inr (), w7)" and
    s8: "open_w (cp @ MD5_SUFFIX) w7 = (Inr (), w8)" and
    s9: "json_dump m (cp @ MD5_SUFFIX) w8 = (Inr (), w')"
    by (rule download_file_group_steps)
  from keeps_serverD [OF keeps_server_calls(1) s1] keeps_serverD [OF keeps_server_calls(12) s2]
  have "files_json w2 = files_json w" by (simp add: same_server_def)
  from remote_manifest_cong [OF this, of fg] get_checksums_frame(1) [OF s3]
  have rm: "remote_manifest fg w = Inr m" by simp
  from move_post [OF s7 rmtree_or_absent [OF s6]] have c7: "op_exists cp w7" .
  from s8 have n8: "nodes w8 = AList.update (cp @ MD5_SUFFIX) (File (Bytes [])) (nodes w7)"
    by (auto simp: open_w_def emit_def split: if_splits)
  from s9 have n9: "nodes w' = AList.update (cp @ MD5_SUFFIX) (File (JsonDict m)) (nodes w8)"
    by (auto simp: json_dump_def write_file_def emit_def)
  from c7 have "op_exists cp w'"
    by (simp add: op_exists_def n8 n9 update_conv' MD5_SUFFIX_def)
  moreover have "map_of (nodes w') (cp @ MD5_SUFFIX) = Some (File (JsonDict m))"
    by (simp add: n9 update_conv')
  moreover from keeps_serverD [OF keeps_server_download_file_group run] have "same_server w w'" .
  ultimately show ?thesis using rm by blast
qed

lemma rmtree_marker_post:
  assumes "shutil_rmtree (cp @ ''.download'') x = (Inr (), y)"
  shows "map_of (nodes y) cp = map_of (nodes x) cp"
    and "map_of (nodes y) (cp @ MD5_SUFFIX) = map_of (nodes x) (cp @ MD5_SUFFIX)"
    and "same_server x y"
  using assms
  by (auto simp: shutil_rmtree_def emit_def map_of_filter_keys MD5_SUFFIX_def same_server_def
      split: option.splits fs_node.splits)

lemma fill_cache_outcome:
  assumes run: "fill_cache repo env fg u cp w = (Inr (), w')"
  shows "\<exists>m. remote_manifest fg w = Inr m \<and>
              map_of (nodes w') (cp @ MD5_SUFFIX) = Some (File (JsonDict m)) \<and>
              op_exists cp w' \<and> same_server w w'"
proof (cases "op_exists (cp @ ''.download'') w")
  case True
  from fill_cache_marker_raises [OF True, of repo env fg u] run show ?thesis by simp
next
  case False
  let ?w1 = "emit (Ev_makedirs (cp @ ''.download''))
      (w\<lparr>nodes := add_dirs (ancestors (cp @ ''.download'') @ [cp @ ''.download'']) (nodes w)\<rparr>)"
  have nf: "\<not> file_above (cp @ ''.download'') w"
  proof
    assume "file_above (cp @ ''.download'') w"
    with False run show False by (simp add: fill_cache_def os_makedirs_def Let_def)
  qed
  from False nf run have "bind_io (download_file_group (cp @ ''.download'') u fg cp)
      (\<lambda>_. shutil_rmtree (cp @ ''.download'')) ?w1 = (Inr (), w')"
    by (simp add: fill_cache_def os_makedirs_new Let_def)
  then obtain x where
    c: "download_file_group (cp @ ''.download'') u fg cp ?w1 = (Inr (), x)" and
    d: "shutil_rmtree (cp @ ''.download'') x = (Inr (), w')"
    apply (elim bind_io_InrE)
    subgoal premises p for a1 x
      using p(1) [of x] p(2-) by simp
    done
  have s: "same_server w ?w1" by (simp add: same_server_def emit_def)
  from download_file_group_post [OF c] obtain m where
    m1: "remote_manifest fg ?w1 = Inr m" and
    m2: "map_of (nodes x) (cp @ MD5_SUFFIX) = Some (File (JsonDict m))" and
    m3: "op_exists cp x" and m4: "same_server ?w1 x"
    by blast
  have f: "files_json ?w1 = files_json w" by (simp add: emit_def)
  from remote_manifest_cong [OF f, of fg] m1 have "remote_manifest fg w = Inr m" by simp
  moreover from m2 rmtree_marker_post(2) [OF d]
  have "map_of (nodes w') (cp @ MD5_SUFFIX) = Some (File (JsonDict m))" by simp
  moreover from m3 rmtree_marker_post(1) [OF d] have "op_exists cp w'"
    by (simp add: op_exists_def)
  moreover from same_server_trans [OF same_server_trans [OF s m4] rmtree_marker_post(3) [OF d]]
  have "same_server w w'" .
  ultimately show ?thesis by blast
qed

lemma get_file_group_paths_steps:
  assumes "get_file_group_paths repo hierarchy env fgi w = (Inr (fg, found), w1)"
  obtains f cp need wd where
    "fmt fgi = Some f" and "repository_id fgi = repo_id repo" and
    "assign_uri hierarchy f fgi w = (Inr fg, w)" and
    "cache_path repo (uri fg) = Inr cp" and
    "need_to_download repo fg cp w = (Inr need, wd)" and
    "(if need then fill_cache repo env fg (the (uri fg)) cp else return_io ()) wd = (Inr (), w1)" and
    "cached_paths f cp w1 = (Inr found, w1)"
proof -
  from assms obtain f where f: "fmt fgi = Some f"
    by (cases "fmt fgi") (auto simp: get_file_group_paths_def raise_io_def)
  from assms have "bind_io (check_repository repo fgi) (\<lambda>_.
          bind_io (assign_uri hierarchy f fgi) (\<lambda>fg.
          bind_io (lift_io (cache_path repo (uri fg))) (\<lambda>cpath.
          bind_io (need_to_download repo fg cpath) (\<lambda>need.
          bind_io
            (if need then fill_cache repo env fg (the (uri fg)) cpath else return_io ()) (\<lambda>_.
          bind_io (cached_paths f cpath) (\<lambda>found.
          return_io (fg, found))))))) w = (Inr (fg, found), w1)"
    by (simp add: get_file_group_paths_def f)
  then show thesis
    apply (elim bind_io_InrE)
    subgoal premises p for a1 wa fgx wb cp wc need wd a5 we found' wf
    proof -
      from p(1) have 1: "wa = w" "repository_id fgi = repo_id repo"
        by (auto simp: check_repository_def return_io_def raise_io_def split: if_splits)
      from p(7) have 7: "fgx = fg" "found' = found" "wf = w1"
        by (auto simp: return_io_def)
      from p(2) 1 7 assign_uri_result(1) [OF p(2)] have 2: "assign_uri hierarchy f fgi w = (Inr fg, w)" "wb = w"
        by auto
      from p(3) 7 have 3: "cache_path repo (uri fg) = Inr cp" "wc = wb"
        by (auto simp: lift_io_def)
      from cached_paths_world [OF p(6)] have 6: "wf = we" .
      from 6 7(3) have we: "we = w1" by simp
      from 2(2) 3(2) have wc: "wc = w" by simp
      note 4 = p(4) [unfolded 7(1) wc]
      have a5: "a5 = ()" by simp
      note 5 = p(5) [unfolded 7(1) we a5]
      note 8 = p(6) [unfolded 7(2) 7(3) we]
      show thesis by (rule that [OF f 1(2) 2(1) 3(1) 4 5 8])
    qed
    done
qed

text \<open>
  C5: when a call of \<open>get_file_group_paths\<close> has returned, a second call on the file
  group as the first one left it, in the world the first one left, returns the same
  paths and fetches nothing: the log gains no download, the disk and the server are as
  they were. The second call's validity check itself says that no download is needed
  (the cached manifest is the remote one, or \<open>check_md5\<close> is off), so the download
  branch is skipped.
\<close>

theorem second_call_transfers_nothing:
  assumes first: "get_file_group_paths repo hierarchy env fgi w = (Inr (fg, found), w1)"
  shows "\<exists>w2. get_file_group_paths repo hierarchy env' fg w1 = (Inr (fg, found), w2) \<and>
           downloads (log w2) = downloads (log w1) \<and> nodes w2 = nodes w1 \<and>
           same_server w1 w2 \<and>
           (\<forall>cp. cache_path repo (uri fg) = Inr cp \<longrightarrow>
              need_to_download repo fg cp w1 = (Inr False, w2))"
proof -
  from first obtain f cp need wd where
    fm: "fmt fgi = Some f" and rid: "repository_id fgi = repo_id repo" and
    asg: "assign_uri hierarchy f fgi w = (Inr fg, w)" and
    cpa: "cache_path repo (uri fg) = Inr cp" and
    nd: "need_to_download repo fg cp w = (Inr need, wd)" and
    fl: "(if need then fill_cache repo env fg (the (uri fg)) cp else return_io ()) wd = (Inr (), w1)" and
    cps: "cached_paths f cp w1 = (Inr found, w1)"
    by (rule get_file_group_paths_steps)
  from assign_uri_result [OF asg] fm rid obtain u where
    fm': "fmt fg = Some f" and rid': "repository_id fg = repo_id repo" and
    u: "uri fg = Some u" "u \<noteq> []"
    by auto
  note fr = need_to_download_frame [OF nd]
  obtain r2 w2 where nd2: "need_to_download repo fg cp w1 = (r2, w2)"
    by (cases "need_to_download repo fg cp w1")
  note fr2 = need_to_download_frame [OF nd2]
  have second: "r2 = Inr False"
  proof (cases need)
    case False
    with fl have "w1 = wd" by (simp add: return_io_def)
    with fr have "nodes w1 = nodes w" "files_json w1 = files_json w"
      by (simp_all add: same_server_def)
    from need_to_download_cong [OF this, of repo fg cp] nd nd2 False show ?thesis by simp
  next
    case True
    with fl have "fill_cache repo env fg (the (uri fg)) cp wd = (Inr (), w1)" by simp
    from fill_cache_outcome [OF this] obtain m where m: "remote_manifest fg wd = Inr m"
      "map_of (nodes w1) (cp @ MD5_SUFFIX) = Some (File (JsonDict m))"
      "op_exists cp w1" "same_server wd w1"
      by blast
    from m(4) have "files_json w1 = files_json wd" by (simp add: same_server_def)
    from remote_manifest_cong [OF this, of fg] m(1) have "remote_manifest fg w1 = Inr m" by simp
    from need_to_download_valid [OF m(3) m(2) this, of repo] nd2 show ?thesis by simp
  qed
  from cached_paths_cong [OF fr2(1), of f cp] cps have "fst (cached_paths f cp w2) = Inr found"
    by simp
  with cached_paths_world [of f cp w2] have cps2: "cached_paths f cp w2 = (Inr found, w2)"
    by (metis prod.collapse)
  have run2: "get_file_group_paths repo hierarchy env' fg w1 = (Inr (fg, found), w2)"
    using fm' rid' u cpa nd2 second cps2
    by (simp add: get_file_group_paths_def check_repository_def bind_io_def return_io_def
        assign_uri_set lift_io_def)
  have "need_to_download repo fg cp' w1 = (Inr False, w2)"
    if "cache_path repo (uri fg) = Inr cp'" for cp'
    using that cpa second nd2 by auto
  with run2 fr2 show ?thesis by blast
qed

theorem second_call_transfers_nothing_witness:
  "map_sum id snd (fst (get_file_group_paths repo0 hier0 [] fg0 w0)) =
     Inr (cp0 @ ''/a.txt'', Some []) \<and>
   (\<exists>w2. get_file_group_paths repo0 hier0 [] fg0 (snd (get_file_group_paths repo0 hier0 [] fg0 w0)) =
           (Inr (fg0, cp0 @ ''/a.txt'', Some []), w2) \<and>
         downloads (log w2) = downloads (log (snd (get_file_group_paths repo0 hier0 [] fg0 w0))))"
proof -
  let ?run = "get_file_group_paths repo0 hier0 [] fg0 w0"
  have a: "map_sum id snd (fst ?run) = Inr (cp0 @ ''/a.txt'', Some [])" by code_simp
  then obtain fgx where "fst ?run = Inr (fgx, cp0 @ ''/a.txt'', Some [])"
    by (cases "fst ?run") auto
  then have r: "?run = (Inr (fgx, cp0 @ ''/a.txt'', Some []), snd ?run)"
    by (metis prod.collapse)
  from get_file_group_paths_steps [OF r] obtain f where
    "assign_uri hier0 f fg0 w0 = (Inr fgx, w0)" by blast
  with assign_uri_set [of fg0 "''/data/archive/projects/P/resources/a''" hier0 f w0]
  have "fgx = fg0" by simp
  with second_call_transfers_nothing [OF r, of "[]"]
  have "\<exists>w2. get_file_group_paths repo0 hier0 [] fg0 (snd ?run) =
           (Inr (fg0, cp0 @ ''/a.txt'', Some []), w2) \<and>
         downloads (log w2) = downloads (log (snd ?run))"
    by blast
  with a show ?thesis by simp
qed

end
